theory Spec2Isabelle
  imports Main "HOL-Library.Word"
begin

section \<open>Descriptors (jllvm/class/Descriptors.hpp)\<close>

text \<open>
  Failures of the C++ code are values of the model. \<open>AssertionFailure\<close> is a failed
  \<^verbatim>\<open>assert\<close> of a library precondition (\<^verbatim>\<open>llvm::StringRef::front\<close> asserts
  \<^verbatim>\<open>!empty()\<close>), \<open>IndexOutOfBounds\<close> an access to a \<^verbatim>\<open>std::vector\<close> outside
  its size (undefined behaviour in C++), \<open>NullType\<close> a load through a null
  \<^verbatim>\<open>llvm::Type*\<close>.
\<close>

datatype error = AssertionFailure | IndexOutOfBounds | NullType

text \<open>
  \<^verbatim>\<open>enum Values\<close> of \<^verbatim>\<open>class BaseType\<close>. \<open>Char\<close> and \<open>Int\<close> carry a prime
  because the unprimed names are taken in HOL.
\<close>

datatype Values = Boolean | Byte | Char' | Short | Int' | Float | Double | Long | Void

text \<open>\<^verbatim>\<open>class BaseType\<close>: the single member \<^verbatim>\<open>m_value\<close>, read by \<^verbatim>\<open>getValue()\<close>.\<close>

datatype BaseType = BaseType (getValue: Values)

text \<open>
  \<^verbatim>\<open>isIntegerType\<close>: the \<^verbatim>\<open>switch\<close> over \<^verbatim>\<open>m_value\<close>, six cases falling through to
  \<^verbatim>\<open>return true\<close>, \<^verbatim>\<open>default: return false\<close>.
\<close>

fun isIntegerType :: "BaseType \<Rightarrow> bool" where
  "isIntegerType (BaseType Boolean) = True"
| "isIntegerType (BaseType Byte) = True"
| "isIntegerType (BaseType Char') = True"
| "isIntegerType (BaseType Short) = True"
| "isIntegerType (BaseType Int') = True"
| "isIntegerType (BaseType Long) = True"
| "isIntegerType (BaseType _) = False"

definition isUnsigned :: "BaseType \<Rightarrow> bool" where
  "isUnsigned b = (getValue b = Char' \<or> getValue b = Boolean)"

text \<open>\<^verbatim>\<open>BaseType::operator==\<close>: \<^verbatim>\<open>m_value == rhs.m_value\<close>.\<close>

definition BaseType_eq :: "BaseType \<Rightarrow> BaseType \<Rightarrow> bool" where
  "BaseType_eq lhs rhs = (getValue lhs = getValue rhs)"

text \<open>\<^verbatim>\<open>struct ObjectType\<close> and its \<^verbatim>\<open>operator==\<close> (\<^verbatim>\<open>StringRef\<close> equality compares contents).\<close>

datatype ObjectType = ObjectType (className: string)

definition ObjectType_eq :: "ObjectType \<Rightarrow> ObjectType \<Rightarrow> bool" where
  "ObjectType_eq lhs rhs = (className lhs = className rhs)"

text \<open>
  \<^verbatim>\<open>using FieldType = std::variant<BaseType, ObjectType, ArrayType>\<close>, where
  \<^verbatim>\<open>struct ArrayType\<close> has the single member \<^verbatim>\<open>componentType\<close>, an owning pointer to
  a \<open>FieldType\<close>. The \<open>Array\<close> alternative carries that component directly; a null
  \<^verbatim>\<open>componentType\<close> is not a value of the model.
\<close>

datatype FieldType = Base BaseType | Object ObjectType | Array (componentType: FieldType)

text \<open>
  Equality of two \<open>FieldType\<close>s is \<^verbatim>\<open>std::variant\<close>'s \<^verbatim>\<open>operator==\<close>: false when
  the two hold different alternatives, otherwise the \<^verbatim>\<open>operator==\<close> of the alternative
  held. For two arrays that is \<^verbatim>\<open>ArrayType::operator==\<close>,
  \<^verbatim>\<open>*componentType == *rhs.componentType\<close>, which is the variant's equality again.
\<close>

fun FieldType_eq :: "FieldType \<Rightarrow> FieldType \<Rightarrow> bool" where
  "FieldType_eq (Base a) (Base b) = BaseType_eq a b"
| "FieldType_eq (Object a) (Object b) = ObjectType_eq a b"
| "FieldType_eq (Array a) (Array b) = FieldType_eq a b"
| "FieldType_eq _ _ = False"

text \<open>\<^verbatim>\<open>ArrayType::operator==\<close> on two array types, given by their components.\<close>

definition ArrayType_eq :: "FieldType \<Rightarrow> FieldType \<Rightarrow> bool" where
  "ArrayType_eq lhsComponent rhsComponent = FieldType_eq lhsComponent rhsComponent"

text \<open>\<^verbatim>\<open>struct MethodType\<close>.\<close>

datatype MethodType = MethodType (parameters: "FieldType list") (returnType: FieldType)

text \<open>
  \<^verbatim>\<open>llvm::StringRef::front()\<close> asserts that the string is not empty and returns its
  first character.
\<close>

definition front :: "string \<Rightarrow> error + char" where
  "front s = (case s of [] \<Rightarrow> Inl AssertionFailure | c # _ \<Rightarrow> Inr c)"

text \<open>
  \<^verbatim>\<open>isReferenceDescriptor\<close>: \<^verbatim>\<open>string.front() == 'L' || string.front() == '['\<close>. The
  second call of \<open>front\<close> is only made when the first comparison is false.
\<close>

definition isReferenceDescriptor :: "string \<Rightarrow> error + bool" where
  "isReferenceDescriptor s =
     (case front s of
        Inl e \<Rightarrow> Inl e
      | Inr c \<Rightarrow>
          if c = CHR ''L'' then Inr True
          else (case front s of Inl e \<Rightarrow> Inl e | Inr d \<Rightarrow> Inr (d = CHR ''['')))"

section \<open>Operand stack (jllvm/materialization/CodeGeneratorUtils.hpp)\<close>

text \<open>
  The part of LLVM the operand stack uses. An \<^verbatim>\<open>llvm::Type*\<close> is one of the first-class
  types below (a pointer type with its address space). An \<^verbatim>\<open>llvm::Value*\<close> is given by
  its type (\<^verbatim>\<open>getType()\<close>) and the datum it denotes when the emitted code runs;
  \<open>None\<close> is LLVM's \<^verbatim>\<open>undef\<close>, the content of a slot nothing was stored to. An
  \<^verbatim>\<open>llvm::AllocaInst*\<close> is identified by the number of the allocation.
\<close>

datatype Type = IntegerTy nat | FloatTy | DoubleTy | PointerTy nat

datatype Value = Value (getType: Type) (datum: "int option")

type_synonym AllocaInst = nat

text \<open>
  The \<^verbatim>\<open>llvm::IRBuilder<>\<close> the stack holds a reference to. The stack only asks it to
  create allocations, stores and loads, all in one straight line of code, so the
  builder is modelled by the number of allocations made so far and by what each
  allocation holds after the code emitted so far has run. \<open>CreateStore\<close> writes the
  datum of the value to the allocation; \<open>CreateLoad\<close> gives the value of the requested
  type that reads the allocation.
\<close>

record IRBuilder =
  allocated :: nat
  contents :: "AllocaInst \<Rightarrow> int option"

definition CreateAlloca :: "IRBuilder \<Rightarrow> AllocaInst \<times> IRBuilder" where
  "CreateAlloca b = (allocated b, b\<lparr>allocated := Suc (allocated b)\<rparr>)"

definition CreateStore :: "Value \<Rightarrow> AllocaInst \<Rightarrow> IRBuilder \<Rightarrow> IRBuilder" where
  "CreateStore v alloc b = b\<lparr>contents := (contents b)(alloc := datum v)\<rparr>"

definition CreateLoad :: "Type \<Rightarrow> AllocaInst \<Rightarrow> IRBuilder \<Rightarrow> Value" where
  "CreateLoad ty alloc b = Value ty (contents b alloc)"

text \<open>
  Modelled from the spec: \<^verbatim>\<open>referenceType\<close> is declared in ByteCodeCompileUtils.hpp,
  which is not among the sources. The specification calls its result the reference
  type of a caught exception; it is taken to be the pointer type of the address space
  of Java references.
\<close>

definition referenceType :: Type where
  "referenceType = PointerTy 1"

text \<open>
  \<^verbatim>\<open>class OperandStack\<close>. An entry of \<open>m_types\<close> is \<open>None\<close> while it is the null
  pointer the constructor fills the vector with. \<open>m_topOfStack\<close> is a \<^verbatim>\<open>std::size_t\<close>; the
  only place where it could wrap is the decrement of a zero in \<open>pop_back\<close>, and the
  index it would give there is outside every vector, so that case is written out as
  the error it is. The builder is a reference member, so its state is passed next to
  the stack.
\<close>

record OperandStack =
  m_values :: "AllocaInst list"
  m_types :: "Type option list"
  m_topOfStack :: nat

text \<open>\<^verbatim>\<open>class StackState\<close>: the members \<^verbatim>\<open>m_types\<close> and \<^verbatim>\<open>m_topOfStack\<close> of a snapshot.\<close>

datatype StackState = StackState (state_types: "Type option list") (state_topOfStack: nat)

text \<open>
  \<^verbatim>\<open>std::generate\<close> over the \<open>n\<close> entries of \<open>m_values\<close>, each one set to a new
  allocation.
\<close>

fun generate :: "nat \<Rightarrow> IRBuilder \<Rightarrow> AllocaInst list \<times> IRBuilder" where
  "generate 0 b = ([], b)"
| "generate (Suc n) b =
     (case CreateAlloca b of (a, b') \<Rightarrow>
        (case generate n b' of (as, b'') \<Rightarrow> (a # as, b'')))"

text \<open>
  The constructor: both vectors get \<open>maxStack\<close> entries (null pointers), then every
  entry of \<open>m_values\<close> is set to a new allocation. \<open>m_topOfStack\<close> starts at zero.
\<close>

definition new_OperandStack :: "IRBuilder \<Rightarrow> 16 word \<Rightarrow> OperandStack \<times> IRBuilder" where
  "new_OperandStack builder maxStack =
     (case generate (unat maxStack) builder of (vals, b') \<Rightarrow>
        (\<lparr>m_values = vals, m_types = replicate (unat maxStack) None, m_topOfStack = 0\<rparr>, b'))"

text \<open>
  \<^verbatim>\<open>pop_back_with_type\<close>: decrement \<open>m_topOfStack\<close>, read \<open>m_values\<close> and \<open>m_types\<close> at
  the new index, load the allocation at the recorded type. The result is the loaded
  value, the type, and the stack after the call.
\<close>

definition pop_back_with_type ::
  "OperandStack \<Rightarrow> IRBuilder \<Rightarrow> error + ((Value \<times> Type) \<times> OperandStack)" where
  "pop_back_with_type s b =
     (if m_topOfStack s = 0 then Inl IndexOutOfBounds
      else
        let top = m_topOfStack s - 1 in
        if \<not> top < length (m_values s) then Inl IndexOutOfBounds
        else if \<not> top < length (m_types s) then Inl IndexOutOfBounds
        else
          (case m_types s ! top of
             None \<Rightarrow> Inl NullType
           | Some ty \<Rightarrow>
               Inr ((CreateLoad ty (m_values s ! top) b, ty), s\<lparr>m_topOfStack := top\<rparr>)))"

text \<open>\<^verbatim>\<open>pop_back\<close>: the same statements, returning the loaded value only.\<close>

definition pop_back :: "OperandStack \<Rightarrow> IRBuilder \<Rightarrow> error + (Value \<times> OperandStack)" where
  "pop_back s b =
     (if m_topOfStack s = 0 then Inl IndexOutOfBounds
      else
        let top = m_topOfStack s - 1 in
        if \<not> top < length (m_values s) then Inl IndexOutOfBounds
        else if \<not> top < length (m_types s) then Inl IndexOutOfBounds
        else
          (case m_types s ! top of
             None \<Rightarrow> Inl NullType
           | Some ty \<Rightarrow> Inr (CreateLoad ty (m_values s ! top) b, s\<lparr>m_topOfStack := top\<rparr>)))"

text \<open>
  \<^verbatim>\<open>push_back\<close>: read \<open>m_values\<close> at \<open>m_topOfStack\<close>, write the value's type to
  \<open>m_types\<close> at \<open>m_topOfStack\<close> and increment it, store the value.
\<close>

definition push_back ::
  "Value \<Rightarrow> OperandStack \<Rightarrow> IRBuilder \<Rightarrow> error + (OperandStack \<times> IRBuilder)" where
  "push_back v s b =
     (let top = m_topOfStack s in
      if \<not> top < length (m_values s) then Inl IndexOutOfBounds
      else if \<not> top < length (m_types s) then Inl IndexOutOfBounds
      else
        Inr (s\<lparr>m_types := (m_types s)[top := Some (getType v)], m_topOfStack := Suc top\<rparr>,
             CreateStore v (m_values s ! top) b))"

definition saveState :: "OperandStack \<Rightarrow> StackState" where
  "saveState s = StackState (m_types s) (m_topOfStack s)"

definition restoreState :: "StackState \<Rightarrow> OperandStack \<Rightarrow> OperandStack" where
  "restoreState st s = s\<lparr>m_types := state_types st, m_topOfStack := state_topOfStack st\<rparr>"

text \<open>
  \<^verbatim>\<open>getHandlerState\<close>: \<^verbatim>\<open>{{referenceType(m_builder.getContext())}, 1}\<close>, a types vector
  of one entry.
\<close>

definition getHandlerState :: "OperandStack \<Rightarrow> StackState" where
  "getHandlerState s = StackState [Some referenceType] 1"

text \<open>
  \<^verbatim>\<open>setHandlerStack\<close>: \<^verbatim>\<open>front()\<close> of \<open>m_values\<close> and of \<open>m_types\<close>, which is outside
  an empty vector.
\<close>

definition setHandlerStack ::
  "Value \<Rightarrow> OperandStack \<Rightarrow> IRBuilder \<Rightarrow> error + (OperandStack \<times> IRBuilder)" where
  "setHandlerStack v s b =
     (case m_values s of
        [] \<Rightarrow> Inl IndexOutOfBounds
      | alloc # _ \<Rightarrow>
          if m_types s = [] then Inl IndexOutOfBounds
          else Inr (s\<lparr>m_types := (m_types s)[0 := Some (getType v)]\<rparr>, CreateStore v alloc b))"

text \<open>
  Sequences of calls: \<open>push_all\<close> pushes the values of a list from its first to its
  last, \<open>pop_n\<close> pops \<open>n\<close> times and lists the results in the order they come.
\<close>

fun push_all ::
  "Value list \<Rightarrow> OperandStack \<Rightarrow> IRBuilder \<Rightarrow> error + (OperandStack \<times> IRBuilder)" where
  "push_all [] s b = Inr (s, b)"
| "push_all (v # vs) s b =
     (case push_back v s b of Inl e \<Rightarrow> Inl e | Inr (s', b') \<Rightarrow> push_all vs s' b')"

fun pop_n :: "nat \<Rightarrow> OperandStack \<Rightarrow> IRBuilder \<Rightarrow> error + (Value list \<times> OperandStack)" where
  "pop_n 0 s b = Inr ([], s)"
| "pop_n (Suc n) s b =
     (case pop_back s b of
        Inl e \<Rightarrow> Inl e
      | Inr (v, s') \<Rightarrow>
          (case pop_n n s' b of Inl e \<Rightarrow> Inl e | Inr (vs, s'') \<Rightarrow> Inr (v # vs, s'')))"

text \<open>
  Slot \<open>k\<close> of the stack holds the value \<open>v\<close>: the slot exists in both
  vectors, its recorded type is the type of \<open>v\<close> and its allocation contains the datum
  of \<open>v\<close>.
\<close>

definition holds :: "OperandStack \<Rightarrow> IRBuilder \<Rightarrow> nat \<Rightarrow> Value \<Rightarrow> bool" where
  "holds s b k v \<longleftrightarrow>
     k < length (m_values s) \<and> k < length (m_types s)
     \<and> m_types s ! k = Some (getType v) \<and> contents b (m_values s ! k) = datum v"

text \<open>A builder that has emitted nothing yet.\<close>

definition emptyBuilder :: IRBuilder where
  "emptyBuilder = \<lparr>allocated = 0, contents = (\<lambda>_. None)\<rparr>"

section \<open>Descriptors as text\<close>

text \<open>
  Modelled from the spec: the function that writes a descriptor as text is not among
  the sources (the mangling functions of ClassObjectStubMangling.hpp are only declared
  there). The letter of each base type is the one the comments of \<^verbatim>\<open>enum Values\<close> and
  the table of the specification give.
\<close>

fun baseTypeChar :: "Values \<Rightarrow> char" where
  "baseTypeChar Boolean = CHR ''Z''"
| "baseTypeChar Byte = CHR ''B''"
| "baseTypeChar Char' = CHR ''C''"
| "baseTypeChar Short = CHR ''S''"
| "baseTypeChar Int' = CHR ''I''"
| "baseTypeChar Float = CHR ''F''"
| "baseTypeChar Double = CHR ''D''"
| "baseTypeChar Long = CHR ''J''"
| "baseTypeChar Void = CHR ''V''"

text \<open>
  Modelled from the spec: the reading of a base-type letter, the inverse of
  \<open>baseTypeChar\<close>; part of \<^verbatim>\<open>parseFieldType\<close>, which is declared in Descriptors.hpp
  and defined in no source file.
\<close>

definition charBaseType :: "char \<Rightarrow> Values option" where
  "charBaseType c =
     (if c = CHR ''Z'' then Some Boolean
      else if c = CHR ''B'' then Some Byte
      else if c = CHR ''C'' then Some Char'
      else if c = CHR ''S'' then Some Short
      else if c = CHR ''I'' then Some Int'
      else if c = CHR ''F'' then Some Float
      else if c = CHR ''D'' then Some Double
      else if c = CHR ''J'' then Some Long
      else if c = CHR ''V'' then Some Void
      else None)"

text \<open>
  Modelled from the spec: the encoding of a field type (a base type as its letter, an
  object type as \<^verbatim>\<open>L<name>;\<close>, an array type as \<^verbatim>\<open>[<component>\<close>); the function that
  produces it is not among the sources.
\<close>

fun fieldDescriptor :: "FieldType \<Rightarrow> string" where
  "fieldDescriptor (Base b) = [baseTypeChar (getValue b)]"
| "fieldDescriptor (Object ob) = CHR ''L'' # className ob @ '';''"
| "fieldDescriptor (Array c) = CHR ''['' # fieldDescriptor c"

text \<open>
  Modelled from the spec: the encoding of a method type, \<^verbatim>\<open>(P1 P2 \<dots> Pn) R\<close> with
  nothing between the encoded field types; the function that produces it is not among
  the sources.
\<close>

definition methodDescriptor :: "MethodType \<Rightarrow> string" where
  "methodDescriptor m =
     ''('' @ concat (map fieldDescriptor (parameters m)) @ '')'' @ fieldDescriptor (returnType m)"

text \<open>
  Modelled from the spec: \<^verbatim>\<open>parseFieldType\<close> is declared in Descriptors.hpp and defined
  in no source file. This is its recursive descent over the grammar of field types: it
  reads one field type from the front of the string and returns it with the rest of the
  string. The name of an object type runs up to the first \<open>;\<close> and is not empty. Void
  is rejected in field and array-component position. \<open>None\<close> stands for the failed
  internal invariant of the specification.
\<close>

fun parseFieldTypePrefix :: "string \<Rightarrow> (FieldType \<times> string) option" where
  "parseFieldTypePrefix [] = None"
| "parseFieldTypePrefix (c # cs) =
     (if c = CHR ''['' then
        (case parseFieldTypePrefix cs of
           None \<Rightarrow> None
         | Some (t, rest) \<Rightarrow> Some (Array t, rest))
      else if c = CHR ''L'' then
        (let name = takeWhile (\<lambda>x. x \<noteq> CHR '';'') cs;
             rest = dropWhile (\<lambda>x. x \<noteq> CHR '';'') cs
         in if name = [] \<or> rest = [] then None
            else Some (Object (ObjectType name), tl rest))
      else
        (case charBaseType c of
           None \<Rightarrow> None
         | Some v \<Rightarrow> if v = Void then None else Some (Base (BaseType v), cs)))"

text \<open>
  Modelled from the spec: \<^verbatim>\<open>parseFieldType\<close> (declared only), on a whole string: one
  field type and nothing after it.
\<close>

definition parseFieldType :: "string \<Rightarrow> FieldType option" where
  "parseFieldType s =
     (case parseFieldTypePrefix s of
        Some (t, []) \<Rightarrow> Some t
      | _ \<Rightarrow> None)"

text \<open>A successful parse consumes input; the loop over the parameters terminates by it.\<close>

lemma parseFieldTypePrefix_shorter:
  "parseFieldTypePrefix s = Some (t, rest) \<Longrightarrow> length rest < length s"
proof (induction s arbitrary: t rest)
  case Nil
  then show ?case by simp
next
  case (Cons c cs)
  show ?case
  proof (cases "c = CHR ''[''")
    case True
    then show ?thesis using Cons by (fastforce split: option.splits)
  next
    case False
    note nb = this
    show ?thesis
    proof (cases "c = CHR ''L''")
      case True
      have "length (dropWhile (\<lambda>x. x \<noteq> CHR '';'') cs) \<le> length cs"
        by (rule length_dropWhile_le)
      then show ?thesis using Cons.prems True nb
        by (auto simp: Let_def split: if_splits)
    next
      case False
      then show ?thesis using Cons.prems nb by (auto split: option.splits if_splits)
    qed
  qed
qed

text \<open>
  Modelled from the spec: the parameter list of \<^verbatim>\<open>parseMethodType\<close> (declared only):
  field types up to the closing parenthesis, which is consumed.
\<close>

function parseParameters :: "string \<Rightarrow> (FieldType list \<times> string) option" where
  "parseParameters s =
     (case s of
        [] \<Rightarrow> None
      | c # cs \<Rightarrow>
          if c = CHR '')'' then Some ([], cs)
          else
            (case parseFieldTypePrefix s of
               None \<Rightarrow> None
             | Some (t, rest) \<Rightarrow>
                 (case parseParameters rest of
                    None \<Rightarrow> None
                  | Some (ts, rest') \<Rightarrow> Some (t # ts, rest'))))"
  by pat_completeness auto
termination
  by (relation "measure length")
    (auto simp del: parseFieldTypePrefix.simps dest: parseFieldTypePrefix_shorter)

declare parseParameters.simps [simp del]

text \<open>
  Modelled from the spec: the return type of \<^verbatim>\<open>parseMethodType\<close> (declared only): a
  field type, or Void, which is legal in this position only.
\<close>

definition parseReturnType :: "string \<Rightarrow> FieldType option" where
  "parseReturnType s = (if s = ''V'' then Some (Base (BaseType Void)) else parseFieldType s)"

text \<open>
  Modelled from the spec: \<^verbatim>\<open>parseMethodType\<close>, declared in Descriptors.hpp and defined
  in no source file: the opening parenthesis, the parameters, the return type.
\<close>

definition parseMethodType :: "string \<Rightarrow> MethodType option" where
  "parseMethodType s =
     (case s of
        [] \<Rightarrow> None
      | c # cs \<Rightarrow>
          if c \<noteq> CHR ''('' then None
          else
            (case parseParameters cs of
               None \<Rightarrow> None
             | Some (ps, rest) \<Rightarrow>
                 (case parseReturnType rest of
                    None \<Rightarrow> None
                  | Some r \<Rightarrow> Some (MethodType ps r))))"

section \<open>Stub mangling (jllvm/materialization/ClassObjectStubMangling.hpp)\<close>

text \<open>
  \<^verbatim>\<open>enum class MethodResolution\<close>, the three structs of a demangled symbol (their
  members in the order of the header: class name, member name, descriptor, after the
  resolution where there is one) and \<^verbatim>\<open>DemangledVariant\<close>, whose last alternative is a
  bare \<open>FieldType\<close>, the descriptor of a class-object load.
\<close>

datatype MethodResolution = Virtual | Interface | Special

datatype DemangledFieldAccess = DemangledFieldAccess string string FieldType
datatype DemangledMethodResolutionCall =
  DemangledMethodResolutionCall MethodResolution string string MethodType
datatype DemangledStaticCall = DemangledStaticCall string string MethodType

datatype DemangledVariant =
    Monostate
  | FieldAccess DemangledFieldAccess
  | MethodResolutionCall DemangledMethodResolutionCall
  | StaticCall DemangledStaticCall
  | ClassObjectAccess FieldType

text \<open>
  Modelled from the spec: the five mangling functions are declared in
  ClassObjectStubMangling.hpp and defined in no source file. Each is the concatenation
  its grammar gives, in the header's comments and in the specification:
  \<^verbatim>\<open><direct-call> ::= <class-name> '.' <method-name> ':' <descriptor>\<close>.
\<close>

definition mangleDirectMethodCall :: "string \<Rightarrow> string \<Rightarrow> MethodType \<Rightarrow> string" where
  "mangleDirectMethodCall className' methodName descriptor =
     className' @ ''.'' @ methodName @ '':'' @ methodDescriptor descriptor"

text \<open>
  Modelled from the spec: \<^verbatim>\<open>mangleFieldAccess\<close> (declared only),
  \<^verbatim>\<open><field-access> ::= <class-name> '.' <field-name> ':' <descriptor>\<close>.
\<close>

definition mangleFieldAccess :: "string \<Rightarrow> string \<Rightarrow> FieldType \<Rightarrow> string" where
  "mangleFieldAccess className' fieldName descriptor =
     className' @ ''.'' @ fieldName @ '':'' @ fieldDescriptor descriptor"

text \<open>
  Modelled from the spec: the prefix of \<^verbatim>\<open>mangleMethodResolutionCall\<close> (declared only),
  \<^verbatim>\<open><method-resolution> ::= 'Virtual Call to ' | 'Interface Call to ' | 'Special Call to '\<close>.
\<close>

fun resolutionPrefix :: "MethodResolution \<Rightarrow> string" where
  "resolutionPrefix Virtual = ''Virtual Call to ''"
| "resolutionPrefix Interface = ''Interface Call to ''"
| "resolutionPrefix Special = ''Special Call to ''"

text \<open>
  Modelled from the spec: \<^verbatim>\<open>mangleMethodResolutionCall\<close> (declared only),
  \<^verbatim>\<open><method-resolution-call> ::= <method-resolution> <direct-call>\<close>.
\<close>

definition mangleMethodResolutionCall ::
  "MethodResolution \<Rightarrow> string \<Rightarrow> string \<Rightarrow> MethodType \<Rightarrow> string" where
  "mangleMethodResolutionCall resolution className' methodName descriptor =
     resolutionPrefix resolution @ mangleDirectMethodCall className' methodName descriptor"

text \<open>
  Modelled from the spec: \<^verbatim>\<open>mangleStaticCall\<close> (declared only),
  \<^verbatim>\<open><static-call> ::= 'Static Call to ' <direct-call>\<close>.
\<close>

definition mangleStaticCall :: "string \<Rightarrow> string \<Rightarrow> MethodType \<Rightarrow> string" where
  "mangleStaticCall className' methodName descriptor =
     ''Static Call to '' @ mangleDirectMethodCall className' methodName descriptor"

text \<open>
  Modelled from the spec: \<^verbatim>\<open>mangleClassObjectAccess\<close> (declared only),
  \<^verbatim>\<open><class-object-access> ::= 'Load ' <descriptor>\<close>.
\<close>

definition mangleClassObjectAccess :: "FieldType \<Rightarrow> string" where
  "mangleClassObjectAccess descriptor = ''Load '' @ fieldDescriptor descriptor"

text \<open>
  Modelled from the spec: the demangler \<^verbatim>\<open>demangleStubSymbolName\<close> is declared in
  ClassObjectStubMangling.hpp and defined in no source file. It recognises a symbol by
  its textual prefix; \<open>consume_front p s\<close> removes the prefix \<open>p\<close> from \<open>s\<close> when
  \<open>s\<close> starts with it.
\<close>

definition consume_front :: "string \<Rightarrow> string \<Rightarrow> string option" where
  "consume_front p s = (if take (length p) s = p then Some (drop (length p) s) else None)"

text \<open>
  Modelled from the spec: part of the demangler (declared only). The string is cut at
  the first occurrence of a separator; the separator itself is dropped.
\<close>

definition split_first :: "char \<Rightarrow> string \<Rightarrow> (string \<times> string) option" where
  "split_first c s =
     (if c \<in> set s then Some (takeWhile (\<lambda>x. x \<noteq> c) s, tl (dropWhile (\<lambda>x. x \<noteq> c) s))
      else None)"

text \<open>
  Modelled from the spec: part of the demangler (declared only). What the prefix of a
  symbol says: a method-resolution call, a static call, or no prefix (a field access
  or a direct call). The prefixes are tried one after the other.
\<close>

datatype CallKind = Unprefixed | Resolved MethodResolution | Static

definition consumeCallPrefix :: "string \<Rightarrow> CallKind \<times> string" where
  "consumeCallPrefix s =
     (case consume_front ''Virtual Call to '' s of
        Some r \<Rightarrow> (Resolved Virtual, r)
      | None \<Rightarrow>
     (case consume_front ''Interface Call to '' s of
        Some r \<Rightarrow> (Resolved Interface, r)
      | None \<Rightarrow>
     (case consume_front ''Special Call to '' s of
        Some r \<Rightarrow> (Resolved Special, r)
      | None \<Rightarrow>
     (case consume_front ''Static Call to '' s of
        Some r \<Rightarrow> (Static, r)
      | None \<Rightarrow> (Unprefixed, s)))))"

text \<open>
  Modelled from the spec: part of the demangler (declared only). What follows the
  prefix is \<^verbatim>\<open><class>.<member>:<descriptor>\<close>. The descriptor decides between a method
  and a field: it starts with \<open>(\<close> for a method. A method descriptor without a prefix
  is a direct call, which is not demangled; a field descriptor after a call prefix is
  no symbol of the grammar. A descriptor that does not parse gives \<open>Monostate\<close>.
\<close>

definition demangleMember :: "CallKind \<Rightarrow> string \<Rightarrow> DemangledVariant" where
  "demangleMember kind s =
     (case split_first CHR ''.'' s of
        None \<Rightarrow> Monostate
      | Some (cls, afterDot) \<Rightarrow>
          (case split_first CHR '':'' afterDot of
             None \<Rightarrow> Monostate
           | Some (member, descriptor) \<Rightarrow>
               if take 1 descriptor = ''(''
               then
                 (case parseMethodType descriptor of
                    None \<Rightarrow> Monostate
                  | Some mt \<Rightarrow>
                      (case kind of
                         Unprefixed \<Rightarrow> Monostate
                       | Resolved r \<Rightarrow>
                           MethodResolutionCall (DemangledMethodResolutionCall r cls member mt)
                       | Static \<Rightarrow> StaticCall (DemangledStaticCall cls member mt)))
               else
                 (case kind of
                    Unprefixed \<Rightarrow>
                      (case parseFieldType descriptor of
                         None \<Rightarrow> Monostate
                       | Some ft \<Rightarrow> FieldAccess (DemangledFieldAccess cls member ft))
                  | _ \<Rightarrow> Monostate)))"

text \<open>
  Modelled from the spec: \<^verbatim>\<open>demangleStubSymbolName\<close> (declared only): a class-object
  load when the symbol starts with \<^verbatim>\<open>Load \<close>, a member symbol otherwise.
  \<open>Monostate\<close> is \<^verbatim>\<open>std::monostate\<close>, the specification's \<open>None\<close>.
\<close>

definition demangleStubSymbolName :: "string \<Rightarrow> DemangledVariant" where
  "demangleStubSymbolName symbolName =
     (case consume_front ''Load '' symbolName of
        Some descriptor \<Rightarrow>
          (case parseFieldType descriptor of
             None \<Rightarrow> Monostate
           | Some ft \<Rightarrow> ClassObjectAccess ft)
      | None \<Rightarrow>
          (case consumeCallPrefix symbolName of (kind, rest) \<Rightarrow> demangleMember kind rest))"


text \<open>
  The field types the grammar of descriptors can express: no Void, and object names
  that are not empty and contain no \<open>;\<close> (the character that ends them).
\<close>

fun wf_FieldType :: "FieldType \<Rightarrow> bool" where
  "wf_FieldType (Base b) = (getValue b \<noteq> Void)"
| "wf_FieldType (Object ob) = (className ob \<noteq> [] \<and> CHR '';'' \<notin> set (className ob))"
| "wf_FieldType (Array c) = wf_FieldType c"

text \<open>The method types the grammar can express: Void at most as the return type.\<close>

definition wf_MethodType :: "MethodType \<Rightarrow> bool" where
  "wf_MethodType m =
     (list_all wf_FieldType (parameters m)
      \<and> (returnType m = Base (BaseType Void) \<or> wf_FieldType (returnType m)))"

text \<open>A string that starts with one of the five prefixes of the mangled symbols.\<close>

definition hasStubPrefix :: "string \<Rightarrow> bool" where
  "hasStubPrefix s =
     (consume_front ''Load '' s \<noteq> None
      \<or> consume_front ''Virtual Call to '' s \<noteq> None
      \<or> consume_front ''Interface Call to '' s \<noteq> None
      \<or> consume_front ''Special Call to '' s \<noteq> None
      \<or> consume_front ''Static Call to '' s \<noteq> None)"

text \<open>
  The stub symbols: the strings of the four grammars that are demangled, that is, the
  mangled forms of the field accesses, method-resolution calls, static calls and
  class-object loads whose descriptor the grammar can express and whose names keep
  clear of the separators (no \<open>.\<close> in the class name, no \<open>:\<close> in the member name, and
  for a field access, which carries no prefix of its own, a class name that does not
  start with one of the prefixes).
\<close>

definition isStubSymbol :: "string \<Rightarrow> bool" where
  "isStubSymbol s \<longleftrightarrow>
     (\<exists>c f ft. CHR ''.'' \<notin> set c \<and> \<not> hasStubPrefix c \<and> CHR '':'' \<notin> set f
        \<and> wf_FieldType ft \<and> s = mangleFieldAccess c f ft)
     \<or> (\<exists>r c m mt. CHR ''.'' \<notin> set c \<and> CHR '':'' \<notin> set m \<and> wf_MethodType mt
        \<and> s = mangleMethodResolutionCall r c m mt)
     \<or> (\<exists>c m mt. CHR ''.'' \<notin> set c \<and> CHR '':'' \<notin> set m \<and> wf_MethodType mt
        \<and> s = mangleStaticCall c m mt)
     \<or> (\<exists>ft. wf_FieldType ft \<and> s = mangleClassObjectAccess ft)"

section \<open>Properties of the descriptors\<close>

lemma FieldType_eq_iff: "FieldType_eq x y \<longleftrightarrow> x = y"
proof (induction x y rule: FieldType_eq.induct)
  case (1 a b)
  show ?case by (cases a; cases b) (simp add: BaseType_eq_def)
next
  case (2 a b)
  show ?case by (cases a; cases b) (simp add: ObjectType_eq_def)
qed simp_all

text \<open>
  Claim C6, as the code has it. On a non-empty string \<open>isReferenceDescriptor\<close> returns
  whether the first character is \<open>L\<close> or \<open>[\<close>. On the empty string it returns
  nothing: \<open>front\<close> fails its assertion.
\<close>

theorem isReferenceDescriptor_nonempty:
  "s \<noteq> [] \<Longrightarrow> isReferenceDescriptor s = Inr (hd s = CHR ''L'' \<or> hd s = CHR ''['')"
  by (cases s) (simp_all add: isReferenceDescriptor_def front_def)

theorem isReferenceDescriptor_nonempty_witness:
  "''[I'' \<noteq> [] \<and> isReferenceDescriptor ''[I'' = Inr True
   \<and> isReferenceDescriptor ''I'' = Inr False"
  using isReferenceDescriptor_nonempty [of "''[I''"] isReferenceDescriptor_nonempty [of "''I''"]
  by simp

text \<open>
  Claim C6 as stated says that the empty string gives \<open>false\<close>. The code gives no
  value there.
\<close>

theorem isReferenceDescriptor_empty_counterexample:
  "isReferenceDescriptor [] = Inl AssertionFailure \<and> isReferenceDescriptor [] \<noteq> Inr False"
  by (simp add: isReferenceDescriptor_def front_def)

text \<open>
  Claim C7. \<open>isIntegerType\<close> is true exactly on Boolean, Byte, Char, Short, Int and
  Long, hence false on Float, Double and Void; \<open>isUnsigned\<close> is true exactly on Char
  and Boolean.
\<close>

theorem base_type_classification:
  "(isIntegerType b \<longleftrightarrow> getValue b \<in> {Boolean, Byte, Char', Short, Int', Long})
   \<and> (getValue b \<in> {Float, Double, Void} \<longleftrightarrow> \<not> isIntegerType b)
   \<and> (isUnsigned b \<longleftrightarrow> getValue b \<in> {Char', Boolean})"
proof -
  obtain v where b: "b = BaseType v" by (cases b)
  show ?thesis unfolding b isUnsigned_def by (cases v) simp_all
qed

text \<open>
  Claim C8. Equality is structural: two base types are equal iff their enum values
  are, two object types iff their class names are, two array types iff their
  components are equal as field types, and the equality of field types obtained this
  way is identity of the values.
\<close>

theorem field_type_equality_structural:
  "(BaseType_eq b1 b2 \<longleftrightarrow> getValue b1 = getValue b2)
   \<and> (ObjectType_eq o1 o2 \<longleftrightarrow> className o1 = className o2)
   \<and> (FieldType_eq (Array c1) (Array c2) \<longleftrightarrow> FieldType_eq c1 c2)
   \<and> (ArrayType_eq c1 c2 \<longleftrightarrow> c1 = c2)
   \<and> (FieldType_eq x y \<longleftrightarrow> x = y)"
  by (simp add: BaseType_eq_def ObjectType_eq_def ArrayType_eq_def FieldType_eq_iff)

section \<open>Properties of the operand stack\<close>

lemma generate_eq:
  "generate n b = ([allocated b ..< allocated b + n], b\<lparr>allocated := allocated b + n\<rparr>)"
proof (induction n arbitrary: b)
  case 0
  show ?case by simp
next
  case (Suc n)
  show ?case by (simp add: CreateAlloca_def Suc upt_conv_Cons del: upt_Suc)
qed

lemma new_OperandStack_eq:
  "new_OperandStack b maxStack =
     (\<lparr>m_values = [allocated b ..< allocated b + unat maxStack],
       m_types = replicate (unat maxStack) None, m_topOfStack = 0\<rparr>,
      b\<lparr>allocated := allocated b + unat maxStack\<rparr>)"
  by (simp add: new_OperandStack_def generate_eq)

lemma pop_back_holds:
  assumes "m_topOfStack s = Suc k" and "holds s b k v"
  shows "pop_back s b = Inr (v, s\<lparr>m_topOfStack := k\<rparr>)"
  using assms by (simp add: pop_back_def holds_def CreateLoad_def Let_def)

lemma pop_n_holds:
  "m_topOfStack s = t + length ws \<Longrightarrow> (\<And>i. i < length ws \<Longrightarrow> holds s b (t + i) (ws ! i))
   \<Longrightarrow> pop_n (length ws) s b = Inr (rev ws, s\<lparr>m_topOfStack := t\<rparr>)"
proof (induction ws arbitrary: s rule: rev_induct)
  case Nil
  then show ?case by simp
next
  case (snoc w ws)
  have top: "m_topOfStack s = Suc (t + length ws)" using snoc.prems(1) by simp
  have "holds s b (t + length ws) ((ws @ [w]) ! length ws)"
    using snoc.prems(2) [of "length ws"] by simp
  then have hw: "holds s b (t + length ws) w" by simp
  let ?s = "s\<lparr>m_topOfStack := t + length ws\<rparr>"
  have pop: "pop_back s b = Inr (w, ?s)" by (rule pop_back_holds [OF top hw])
  have rest: "pop_n (length ws) ?s b = Inr (rev ws, ?s\<lparr>m_topOfStack := t\<rparr>)"
  proof (rule snoc.IH)
    show "m_topOfStack ?s = t + length ws" by simp
  next
    fix i assume i: "i < length ws"
    then have "holds s b (t + i) ((ws @ [w]) ! i)" using snoc.prems(2) [of i] by simp
    then show "holds ?s b (t + i) (ws ! i)" using i by (simp add: holds_def nth_append)
  qed
  show ?case using pop rest by simp
qed

lemma push_all_holds:
  "distinct (m_values s) \<Longrightarrow> m_topOfStack s + length vs \<le> length (m_values s)
   \<Longrightarrow> m_topOfStack s + length vs \<le> length (m_types s)
   \<Longrightarrow> \<exists>s' b'. push_all vs s b = Inr (s', b')
         \<and> m_values s' = m_values s \<and> length (m_types s') = length (m_types s)
         \<and> m_topOfStack s' = m_topOfStack s + length vs
         \<and> (\<forall>i < length vs. holds s' b' (m_topOfStack s + i) (vs ! i))
         \<and> (\<forall>k < m_topOfStack s. m_types s' ! k = m_types s ! k
                \<and> contents b' (m_values s ! k) = contents b (m_values s ! k))"
proof (induction vs arbitrary: s b)
  case Nil
  then show ?case by simp
next
  case (Cons v vs)
  let ?t = "m_topOfStack s"
  let ?s1 = "s\<lparr>m_types := (m_types s)[?t := Some (getType v)], m_topOfStack := Suc ?t\<rparr>"
  let ?b1 = "CreateStore v (m_values s ! ?t) b"
  have lt: "?t < length (m_values s)" "?t < length (m_types s)" using Cons.prems by simp_all
  have push: "push_back v s b = Inr (?s1, ?b1)" using lt by (simp add: push_back_def Let_def)
  have "\<exists>s' b'. push_all vs ?s1 ?b1 = Inr (s', b')
         \<and> m_values s' = m_values ?s1 \<and> length (m_types s') = length (m_types ?s1)
         \<and> m_topOfStack s' = m_topOfStack ?s1 + length vs
         \<and> (\<forall>i < length vs. holds s' b' (m_topOfStack ?s1 + i) (vs ! i))
         \<and> (\<forall>k < m_topOfStack ?s1. m_types s' ! k = m_types ?s1 ! k
                \<and> contents b' (m_values ?s1 ! k) = contents ?b1 (m_values ?s1 ! k))"
    by (rule Cons.IH) (use Cons.prems in simp_all)
  then obtain s' b' where r: "push_all vs ?s1 ?b1 = Inr (s', b')"
    and mv: "m_values s' = m_values s" and len: "length (m_types s') = length (m_types s)"
    and top: "m_topOfStack s' = Suc ?t + length vs"
    and hs: "\<And>i. i < length vs \<Longrightarrow> holds s' b' (Suc ?t + i) (vs ! i)"
    and keep: "\<And>k. k < Suc ?t \<Longrightarrow> m_types s' ! k = m_types ?s1 ! k
                \<and> contents b' (m_values s ! k) = contents ?b1 (m_values s ! k)"
    by auto
  have h0: "holds s' b' ?t v"
    using keep [of ?t] lt mv len by (simp add: holds_def CreateStore_def)
  have hall: "\<forall>i < length (v # vs). holds s' b' (?t + i) ((v # vs) ! i)"
  proof (intro allI impI)
    fix i assume "i < length (v # vs)"
    then show "holds s' b' (?t + i) ((v # vs) ! i)"
      using h0 hs [of "i - 1"] by (cases i) simp_all
  qed
  have old: "\<forall>k < ?t. m_types s' ! k = m_types s ! k
                \<and> contents b' (m_values s ! k) = contents b (m_values s ! k)"
  proof (intro allI impI)
    fix k assume k: "k < ?t"
    then have "m_values s ! k \<noteq> m_values s ! ?t"
      using Cons.prems(1) lt by (simp add: nth_eq_iff_index_eq)
    then show "m_types s' ! k = m_types s ! k
                \<and> contents b' (m_values s ! k) = contents b (m_values s ! k)"
      using keep [of k] k by (simp add: CreateStore_def)
  qed
  show ?case using push r mv len top hall old by simp
qed

text \<open>\<open>pop_back_with_type\<close> pops what \<open>pop_back\<close> pops and adds the recorded type.\<close>

lemma pop_back_with_type_pop_back:
  "pop_back_with_type s b =
     (case pop_back s b of Inl e \<Rightarrow> Inl e | Inr (v, s') \<Rightarrow> Inr ((v, getType v), s'))"
  by (simp add: pop_back_with_type_def pop_back_def CreateLoad_def Let_def
      split: option.splits)

text \<open>
  Pushes and pops are last-in first-out as long as \<open>m_types\<close> has an entry for each
  slot used. On a stack whose slots are distinct allocations (as the constructor makes
  them), pushing \<open>v1 \<dots> vn\<close> while \<open>n\<close> does not exceed the room left above
  \<open>m_topOfStack\<close> in \<open>m_values\<close> and in \<open>m_types\<close>, then popping \<open>n\<close> times, succeeds
  and returns \<open>vn \<dots> v1\<close>: each pop loads the slot at the type recorded by the push,
  so the value that comes back is the value pushed. The top of stack is back where it
  was.
\<close>

lemma push_pop_lifo:
  assumes "distinct (m_values s)"
    and "m_topOfStack s + length vs \<le> length (m_values s)"
    and "m_topOfStack s + length vs \<le> length (m_types s)"
  shows "\<exists>s' b' s''. push_all vs s b = Inr (s', b')
           \<and> pop_n (length vs) s' b' = Inr (rev vs, s'')
           \<and> m_topOfStack s'' = m_topOfStack s"
proof -
  obtain s' b' where r: "push_all vs s b = Inr (s', b')"
    and top: "m_topOfStack s' = m_topOfStack s + length vs"
    and hs: "\<And>i. i < length vs \<Longrightarrow> holds s' b' (m_topOfStack s + i) (vs ! i)"
    using push_all_holds [OF assms, of b] by auto
  have "pop_n (length vs) s' b' = Inr (rev vs, s'\<lparr>m_topOfStack := m_topOfStack s\<rparr>)"
    using top hs by (rule pop_n_holds)
  then show ?thesis using r by simp
qed

lemma new_OperandStack_3:
  "new_OperandStack b 3 =
     (\<lparr>m_values = [allocated b, Suc (allocated b), Suc (Suc (allocated b))],
       m_types = [None, None, None], m_topOfStack = 0\<rparr>,
      b\<lparr>allocated := allocated b + 3\<rparr>)"
proof -
  have u: "unat (3 :: 16 word) = Suc (Suc (Suc 0))" by simp
  show ?thesis unfolding new_OperandStack_eq u by (simp add: upt_rec)
qed

lemma new_OperandStack_2:
  "new_OperandStack b 2 =
     (\<lparr>m_values = [allocated b, Suc (allocated b)],
       m_types = [None, None], m_topOfStack = 0\<rparr>,
      b\<lparr>allocated := allocated b + 2\<rparr>)"
proof -
  have u: "unat (2 :: 16 word) = Suc (Suc 0)" by simp
  show ?thesis unfolding new_OperandStack_eq u by (simp add: upt_rec)
qed

lemma push_pop_lifo_example:
  "distinct (m_values (fst (new_OperandStack emptyBuilder 3)))
   \<and> m_topOfStack (fst (new_OperandStack emptyBuilder 3))
        + length [Value (IntegerTy 32) (Some 7), Value referenceType (Some 99)]
        \<le> length (m_values (fst (new_OperandStack emptyBuilder 3)))
   \<and> m_topOfStack (fst (new_OperandStack emptyBuilder 3))
        + length [Value (IntegerTy 32) (Some 7), Value referenceType (Some 99)]
        \<le> length (m_types (fst (new_OperandStack emptyBuilder 3)))
   \<and> (\<exists>s' b' s''.
         push_all [Value (IntegerTy 32) (Some 7), Value referenceType (Some 99)]
           (fst (new_OperandStack emptyBuilder 3)) (snd (new_OperandStack emptyBuilder 3))
           = Inr (s', b')
         \<and> pop_n (length [Value (IntegerTy 32) (Some 7), Value referenceType (Some 99)]) s' b'
           = Inr (rev [Value (IntegerTy 32) (Some 7), Value referenceType (Some 99)], s'')
         \<and> m_topOfStack s'' = m_topOfStack (fst (new_OperandStack emptyBuilder 3)))"
proof -
  let ?s = "fst (new_OperandStack emptyBuilder 3)"
  let ?vs = "[Value (IntegerTy 32) (Some 7), Value referenceType (Some 99)]"
  have h1: "distinct (m_values ?s)" by (simp add: new_OperandStack_3)
  have h2: "m_topOfStack ?s + length ?vs \<le> length (m_values ?s)"
    by (simp add: new_OperandStack_3)
  have h3: "m_topOfStack ?s + length ?vs \<le> length (m_types ?s)"
    by (simp add: new_OperandStack_3)
  show ?thesis using h1 h2 h3 push_pop_lifo [OF h1 h2 h3] by blast
qed

text \<open>
  Claim C4. \<open>restoreState\<close> of a saved state puts back the saved \<open>m_types\<close> and
  \<open>m_topOfStack\<close> and leaves \<open>m_values\<close> as it is; it has no access to the builder, so
  the contents of the slots stay. The scenario: on a stack of \<open>maxStack = 3\<close>, push
  \<open>i32 7\<close>, push the reference \<open>r\<close>, save, pop twice (giving \<open>r\<close>, then \<open>i32 7\<close>),
  restore, pop: \<open>r\<close> again.
\<close>

theorem save_restore:
  "m_types (restoreState (saveState s) s') = m_types s
   \<and> m_topOfStack (restoreState (saveState s) s') = m_topOfStack s
   \<and> m_values (restoreState (saveState s) s') = m_values s'
   \<and> (case new_OperandStack b 3 of (s0, b0) \<Rightarrow>
        \<exists>s1 b1 s2 b2 s3 s4 s5.
          push_back (Value (IntegerTy 32) (Some 7)) s0 b0 = Inr (s1, b1)
          \<and> push_back (Value referenceType r) s1 b1 = Inr (s2, b2)
          \<and> pop_back s2 b2 = Inr (Value referenceType r, s3)
          \<and> pop_back s3 b2 = Inr (Value (IntegerTy 32) (Some 7), s4)
          \<and> pop_back (restoreState (saveState s2) s4) b2 = Inr (Value referenceType r, s5))"
  by (simp add: new_OperandStack_3 push_back_def pop_back_def Let_def
      saveState_def restoreState_def CreateStore_def CreateLoad_def)

text \<open>
  Claim C5. Whatever the stack, \<open>getHandlerState\<close> is the state of one slot of the
  reference type with top of stack 1.
\<close>

theorem getHandlerState_canonical:
  "getHandlerState s = StackState [Some referenceType] 1
   \<and> state_types (getHandlerState s) = [Some referenceType]
   \<and> state_topOfStack (getHandlerState s) = 1
   \<and> getHandlerState s = getHandlerState s'"
  by (simp add: getHandlerState_def)

text \<open>
  The constructor gives \<open>m_types\<close> the length \<open>maxStack\<close>; pushes, pops,
  \<open>setHandlerStack\<close> and the restoring of a state saved from the stack keep the length.
\<close>

lemma new_OperandStack_lengths:
  "length (m_types (fst (new_OperandStack b maxStack))) = unat maxStack
   \<and> length (m_values (fst (new_OperandStack b maxStack))) = unat maxStack"
  by (simp add: new_OperandStack_eq)

lemma push_back_length:
  "push_back v s b = Inr (s', b') \<Longrightarrow> length (m_types s') = length (m_types s)"
  by (auto simp: push_back_def Let_def split: if_splits)

lemma pop_back_length:
  "pop_back s b = Inr (v, s') \<Longrightarrow> length (m_types s') = length (m_types s)"
  by (auto simp: pop_back_def Let_def split: if_splits option.splits)

lemma setHandlerStack_length:
  "setHandlerStack v s b = Inr (s', b') \<Longrightarrow> length (m_types s') = length (m_types s)"
  by (auto simp: setHandlerStack_def split: if_splits list.splits)

lemma restore_saved_length:
  "length (m_types (restoreState (saveState s) s')) = length (m_types s)"
  by (simp add: restoreState_def saveState_def)

text \<open>
  Claim C9 on the code. Restoring the handler state replaces \<open>m_types\<close> by a vector of
  one entry, whatever \<open>maxStack\<close> is. On a stack of \<open>maxStack = 2\<close> the top of stack is
  then 1, below \<open>maxStack\<close>, and the next push writes \<open>m_types\<close> at index 1, outside the
  vector.
\<close>

theorem handler_state_shrinks_types:
  "(case new_OperandStack b 2 of (s0, b0) \<Rightarrow>
      length (m_types s0) = 2
      \<and> length (m_types (restoreState (getHandlerState s0) s0)) = 1
      \<and> m_topOfStack (restoreState (getHandlerState s0) s0) = 1
      \<and> length (m_values (restoreState (getHandlerState s0) s0)) = 2
      \<and> push_back v (restoreState (getHandlerState s0) s0) b0 = Inl IndexOutOfBounds)"
  by (simp add: new_OperandStack_2 push_back_def Let_def
      getHandlerState_def restoreState_def)

text \<open>
  Claim C3 on the code. The stack of \<open>maxStack = 2\<close> after the handler state was
  restored has distinct slots and its top of stack at 1, so that one more value is
  within the remaining capacity. The push of that value writes \<open>m_types\<close> at index 1,
  outside the vector of one entry the handler state left: no value is pushed and none
  can be popped. This is the defect of claim C9.
\<close>

theorem push_within_capacity_out_of_bounds:
  "(case new_OperandStack b 2 of (s0, b0) \<Rightarrow>
      distinct (m_values (restoreState (getHandlerState s0) s0))
      \<and> m_topOfStack (restoreState (getHandlerState s0) s0) + length [v]
           \<le> length (m_values (restoreState (getHandlerState s0) s0))
      \<and> push_all [v] (restoreState (getHandlerState s0) s0) b0 = Inl IndexOutOfBounds)"
  by (simp add: new_OperandStack_2 push_back_def Let_def getHandlerState_def restoreState_def)

text \<open>
  Claim C10. On a stack that has a slot 0, \<open>setHandlerStack v\<close> succeeds; the top of
  stack and the allocations are unchanged, \<open>m_types\<close> changes at index 0 only, where it
  becomes the type of \<open>v\<close>, and the only allocation whose contents change is the one of
  slot 0, which receives \<open>v\<close>. The allocations being distinct, the contents of every
  other slot are what they were.
\<close>

theorem setHandlerStack_frame:
  assumes "m_values s \<noteq> []" and "m_types s \<noteq> []"
  shows "\<exists>s' b'. setHandlerStack v s b = Inr (s', b')
           \<and> m_topOfStack s' = m_topOfStack s
           \<and> m_values s' = m_values s
           \<and> m_types s' = (m_types s)[0 := Some (getType v)]
           \<and> contents b' = (contents b)(m_values s ! 0 := datum v)
           \<and> allocated b' = allocated b
           \<and> (\<forall>i. 0 < i \<and> i < length (m_types s) \<longrightarrow> m_types s' ! i = m_types s ! i)
           \<and> (distinct (m_values s) \<longrightarrow>
                (\<forall>i. 0 < i \<and> i < length (m_values s) \<longrightarrow>
                   contents b' (m_values s ! i) = contents b (m_values s ! i)))"
proof -
  obtain a as where vs: "m_values s = a # as" using assms(1) by (cases "m_values s") auto
  have other: "distinct (m_values s) \<Longrightarrow> 0 < i \<Longrightarrow> i < length (m_values s)
      \<Longrightarrow> m_values s ! i \<noteq> a" for i
    using vs by (cases i) auto
  show ?thesis
    using assms(2) other by (simp add: setHandlerStack_def vs CreateStore_def)
qed

theorem setHandlerStack_frame_witness:
  "m_values (fst (new_OperandStack emptyBuilder 2)) \<noteq> []
   \<and> m_types (fst (new_OperandStack emptyBuilder 2)) \<noteq> []
   \<and> (\<exists>s' b'. setHandlerStack (Value referenceType (Some 5))
          (fst (new_OperandStack emptyBuilder 2)) (snd (new_OperandStack emptyBuilder 2))
          = Inr (s', b')
        \<and> m_topOfStack s' = 0 \<and> m_values s' = [0, 1]
        \<and> m_types s' = [Some referenceType, None]
        \<and> contents b' 0 = Some 5 \<and> contents b' 1 = None)"
proof -
  let ?s = "fst (new_OperandStack emptyBuilder 2)"
  let ?b = "snd (new_OperandStack emptyBuilder 2)"
  have s: "?s = \<lparr>m_values = [0, 1], m_types = [None, None], m_topOfStack = 0\<rparr>"
    by (simp add: new_OperandStack_2 emptyBuilder_def)
  have b: "contents ?b = (\<lambda>_. None)"
    by (simp add: new_OperandStack_2 emptyBuilder_def)
  have h1: "m_values ?s \<noteq> []" and h2: "m_types ?s \<noteq> []" by (simp_all add: s)
  obtain s' b' where r: "setHandlerStack (Value referenceType (Some 5)) ?s ?b = Inr (s', b')"
    and "m_topOfStack s' = m_topOfStack ?s" and "m_values s' = m_values ?s"
    and "m_types s' = (m_types ?s)[0 := Some (getType (Value referenceType (Some 5)))]"
    and "contents b' = (contents ?b)(m_values ?s ! 0 := datum (Value referenceType (Some 5)))"
    using setHandlerStack_frame [OF h1 h2] by blast
  then have "m_topOfStack s' = 0 \<and> m_values s' = [0, 1]
        \<and> m_types s' = [Some referenceType, None]
        \<and> contents b' 0 = Some 5 \<and> contents b' 1 = None"
    by (simp add: s b)
  then show ?thesis using h1 h2 r by blast
qed

section \<open>Properties of the stub mangling\<close>

lemma charBaseType_baseTypeChar: "charBaseType (baseTypeChar v) = Some v"
  by (cases v) (simp_all add: charBaseType_def)

lemma baseTypeChar_charBaseType: "charBaseType c = Some v \<Longrightarrow> baseTypeChar v = c"
  by (auto simp: charBaseType_def split: if_splits)

lemma baseTypeChar_not_special:
  "baseTypeChar v \<noteq> CHR ''['' \<and> baseTypeChar v \<noteq> CHR ''L''
   \<and> baseTypeChar v \<noteq> CHR '')'' \<and> baseTypeChar v \<noteq> CHR ''(''"
  by (cases v) simp_all

lemma takeWhile_until: "c \<notin> set a \<Longrightarrow> takeWhile (\<lambda>x. x \<noteq> c) (a @ c # b) = a"
  by (induction a) auto

lemma dropWhile_until: "c \<notin> set a \<Longrightarrow> dropWhile (\<lambda>x. x \<noteq> c) (a @ c # b) = c # b"
  by (induction a) auto

lemma split_at_first:
  "c \<in> set s \<Longrightarrow>
     s = takeWhile (\<lambda>x. x \<noteq> c) s @ c # tl (dropWhile (\<lambda>x. x \<noteq> c) s)
     \<and> c \<notin> set (takeWhile (\<lambda>x. x \<noteq> c) s)"
proof (induction s)
  case Nil
  then show ?case by simp
next
  case (Cons x xs)
  then show ?case by (cases "x = c") auto
qed

lemma parseFieldTypePrefix_fieldDescriptor:
  "wf_FieldType t \<Longrightarrow> parseFieldTypePrefix (fieldDescriptor t @ r) = Some (t, r)"
proof (induction t)
  case (Base b)
  obtain v where b: "b = BaseType v" by (cases b)
  show ?case using Base
    by (simp add: b charBaseType_baseTypeChar baseTypeChar_not_special)
next
  case (Object ob)
  obtain n where ob: "ob = ObjectType n" by (cases ob)
  have n: "n \<noteq> []" "CHR '';'' \<notin> set n" using Object by (simp_all add: ob)
  have tw: "takeWhile (\<lambda>x. x \<noteq> CHR '';'') (n @ CHR '';'' # r) = n"
    using n(2) by (rule takeWhile_until)
  have dw: "dropWhile (\<lambda>x. x \<noteq> CHR '';'') (n @ CHR '';'' # r) = CHR '';'' # r"
    using n(2) by (rule dropWhile_until)
  show ?case using n(1) by (simp add: ob tw dw)
next
  case (Array t)
  then show ?case by simp
qed

lemma parseFieldType_fieldDescriptor:
  "wf_FieldType t \<Longrightarrow> parseFieldType (fieldDescriptor t) = Some t"
  using parseFieldTypePrefix_fieldDescriptor [of t "[]"] by (simp add: parseFieldType_def)

lemma fieldDescriptor_Cons: "\<exists>c cs. fieldDescriptor t = c # cs \<and> c \<noteq> CHR '')'' \<and> c \<noteq> CHR ''(''"
  by (cases t) (simp_all add: baseTypeChar_not_special)

lemma parseFieldTypePrefix_sound:
  "parseFieldTypePrefix s = Some (t, r) \<Longrightarrow> s = fieldDescriptor t @ r \<and> wf_FieldType t"
proof (induction s arbitrary: t r)
  case Nil
  then show ?case by simp
next
  case (Cons c cs)
  show ?case
  proof (cases "c = CHR ''[''")
    case True
    then obtain t' where p: "parseFieldTypePrefix cs = Some (t', r)" and t: "t = Array t'"
      using Cons.prems by (auto split: option.splits)
    show ?thesis using Cons.IH [OF p] True t by simp
  next
    case False
    note nb = this
    show ?thesis
    proof (cases "c = CHR ''L''")
      case True
      let ?n = "takeWhile (\<lambda>x. x \<noteq> CHR '';'') cs"
      let ?d = "dropWhile (\<lambda>x. x \<noteq> CHR '';'') cs"
      have res: "?n \<noteq> []" "?d \<noteq> []" "t = Object (ObjectType ?n)" "r = tl ?d"
        using Cons.prems True by (auto simp: Let_def split: if_splits)
      have "hd ?d = CHR '';''" using res(2) hd_dropWhile [of "\<lambda>x. x \<noteq> CHR '';''" cs] by simp
      then have d: "?d = CHR '';'' # r" using res(2,4) by (cases ?d) simp_all
      have "cs = ?n @ ?d" by simp
      then have cs: "cs = ?n @ CHR '';'' # r" using d by simp
      have "CHR '';'' \<notin> set ?n" by (auto dest: set_takeWhileD)
      then show ?thesis using res(1,3) True cs by simp
    next
      case False
      then obtain v where v: "charBaseType c = Some v" "v \<noteq> Void" "t = Base (BaseType v)" "r = cs"
        using Cons.prems nb by (auto split: option.splits if_splits)
      show ?thesis using v baseTypeChar_charBaseType [OF v(1)] by simp
    qed
  qed
qed

lemma parseFieldType_sound:
  "parseFieldType s = Some t \<Longrightarrow> fieldDescriptor t = s \<and> wf_FieldType t"
proof -
  assume "parseFieldType s = Some t"
  then have "parseFieldTypePrefix s = Some (t, [])"
    by (auto simp: parseFieldType_def split: option.splits list.splits)
  then show ?thesis using parseFieldTypePrefix_sound [of s t "[]"] by simp
qed

lemma parseParameters_descriptors:
  "list_all wf_FieldType ps \<Longrightarrow>
     parseParameters (concat (map fieldDescriptor ps) @ CHR '')'' # r) = Some (ps, r)"
proof (induction ps)
  case Nil
  show ?case by (simp add: parseParameters.simps)
next
  case (Cons t ps)
  obtain c cs where d: "fieldDescriptor t = c # cs" "c \<noteq> CHR '')''"
    using fieldDescriptor_Cons [of t] by blast
  let ?rest = "concat (map fieldDescriptor ps) @ CHR '')'' # r"
  have p: "parseFieldTypePrefix (fieldDescriptor t @ ?rest) = Some (t, ?rest)"
    using Cons.prems by (simp add: parseFieldTypePrefix_fieldDescriptor)
  have ih: "parseParameters ?rest = Some (ps, r)" using Cons by simp
  have "parseParameters (fieldDescriptor t @ ?rest) = Some (t # ps, r)"
    by (subst parseParameters.simps) (use d p ih in \<open>simp del: parseFieldTypePrefix.simps\<close>)
  then show ?case by simp
qed

lemma parseParameters_sound:
  "parseParameters s = Some (ps, r) \<Longrightarrow>
     s = concat (map fieldDescriptor ps) @ CHR '')'' # r \<and> list_all wf_FieldType ps"
proof (induction s arbitrary: ps r rule: parseParameters.induct)
  case (1 s)
  show ?case
  proof (cases s)
    case Nil
    then show ?thesis using "1.prems" by (simp add: parseParameters.simps)
  next
    case (Cons c cs)
    show ?thesis
    proof (cases "c = CHR '')''")
      case True
      then show ?thesis using "1.prems" Cons by (simp add: parseParameters.simps)
    next
      case False
      have "(case parseFieldTypePrefix s of None \<Rightarrow> None
             | Some (t, rest) \<Rightarrow>
                 (case parseParameters rest of None \<Rightarrow> None
                  | Some (ts, rest') \<Rightarrow> Some (t # ts, rest'))) = Some (ps, r)"
        using "1.prems" Cons False
        by (subst (asm) parseParameters.simps) (simp del: parseFieldTypePrefix.simps)
      then obtain t rest ts where p: "parseFieldTypePrefix s = Some (t, rest)"
        and q: "parseParameters rest = Some (ts, r)" and ps: "ps = t # ts"
        by (auto split: option.splits)
      have a: "s = fieldDescriptor t @ rest \<and> wf_FieldType t"
        using parseFieldTypePrefix_sound [OF p] .
      have b: "rest = concat (map fieldDescriptor ts) @ CHR '')'' # r \<and> list_all wf_FieldType ts"
        using "1.IH" [OF Cons False p refl q] .
      show ?thesis using a b ps by simp
    qed
  qed
qed

lemma parseReturnType_fieldDescriptor:
  "t = Base (BaseType Void) \<or> wf_FieldType t \<Longrightarrow> parseReturnType (fieldDescriptor t) = Some t"
proof (cases "t = Base (BaseType Void)")
  case True
  then show ?thesis by (simp add: parseReturnType_def)
next
  case False
  assume "t = Base (BaseType Void) \<or> wf_FieldType t"
  then have wf: "wf_FieldType t" using False by simp
  have "fieldDescriptor t \<noteq> ''V''"
  proof
    assume "fieldDescriptor t = ''V''"
    then have "parseFieldType ''V'' = Some t"
      using parseFieldType_fieldDescriptor [OF wf] by simp
    then show False by (simp add: parseFieldType_def charBaseType_def)
  qed
  then show ?thesis using wf by (simp add: parseReturnType_def parseFieldType_fieldDescriptor)
qed

lemma parseReturnType_sound:
  "parseReturnType s = Some t \<Longrightarrow>
     fieldDescriptor t = s \<and> (t = Base (BaseType Void) \<or> wf_FieldType t)"
  by (auto simp: parseReturnType_def dest: parseFieldType_sound split: if_splits)

lemma parseMethodType_methodDescriptor:
  "wf_MethodType m \<Longrightarrow> parseMethodType (methodDescriptor m) = Some m"
proof -
  assume wf: "wf_MethodType m"
  obtain ps rt where m: "m = MethodType ps rt" by (cases m)
  have ps: "list_all wf_FieldType ps" and rt: "rt = Base (BaseType Void) \<or> wf_FieldType rt"
    using wf by (simp_all add: wf_MethodType_def m)
  have "parseParameters (concat (map fieldDescriptor ps) @ CHR '')'' # fieldDescriptor rt)
          = Some (ps, fieldDescriptor rt)"
    using ps by (rule parseParameters_descriptors)
  then show ?thesis
    using parseReturnType_fieldDescriptor [OF rt]
    by (simp add: parseMethodType_def methodDescriptor_def m)
qed

lemma parseMethodType_sound:
  "parseMethodType s = Some m \<Longrightarrow> methodDescriptor m = s \<and> wf_MethodType m"
proof -
  assume a: "parseMethodType s = Some m"
  then obtain cs ps rest rt where s: "s = CHR ''('' # cs"
    and p: "parseParameters cs = Some (ps, rest)"
    and r: "parseReturnType rest = Some rt" and m: "m = MethodType ps rt"
    by (auto simp: parseMethodType_def split: list.splits if_splits option.splits)
  show ?thesis
    using parseParameters_sound [OF p] parseReturnType_sound [OF r]
    by (simp add: s m methodDescriptor_def wf_MethodType_def)
qed

lemma methodDescriptor_Cons: "\<exists>cs. methodDescriptor m = CHR ''('' # cs"
  by (simp add: methodDescriptor_def)

lemma consume_front_append: "consume_front p (p @ s) = Some s"
  by (simp add: consume_front_def)

lemma consume_front_sound: "consume_front p s = Some r \<Longrightarrow> s = p @ r"
proof -
  assume "consume_front p s = Some r"
  then have "take (length p) s = p" "r = drop (length p) s"
    by (auto simp: consume_front_def split: if_splits)
  then show ?thesis using append_take_drop_id [of "length p" s] by simp
qed

lemma consume_front_before_dot:
  assumes "CHR ''.'' \<notin> set p" and "consume_front p c = None"
  shows "consume_front p (c @ CHR ''.'' # r) = None"
proof (rule ccontr)
  assume "consume_front p (c @ CHR ''.'' # r) \<noteq> None"
  then have t: "take (length p) (c @ CHR ''.'' # r) = p"
    by (auto simp: consume_front_def split: if_splits)
  show False
  proof (cases "length p \<le> length c")
    case True
    then have "take (length p) c = p" using t by simp
    then show False using assms(2) by (simp add: consume_front_def)
  next
    case False
    then obtain k where k: "length p - length c = Suc k" by (cases "length p - length c") auto
    have "p = c @ CHR ''.'' # take k r" using t k by simp
    then have "CHR ''.'' \<in> set p" by (metis in_set_conv_decomp)
    then show False using assms(1) by simp
  qed
qed

lemma split_first_append:
  "c \<notin> set a \<Longrightarrow> split_first c (a @ c # b) = Some (a, b)"
  by (simp add: split_first_def takeWhile_until dropWhile_until)

lemma split_first_sound:
  "split_first c s = Some (a, b) \<Longrightarrow> s = a @ c # b"
proof -
  assume "split_first c s = Some (a, b)"
  then have "c \<in> set s" "a = takeWhile (\<lambda>x. x \<noteq> c) s" "b = tl (dropWhile (\<lambda>x. x \<noteq> c) s)"
    by (auto simp: split_first_def split: if_splits)
  then show ?thesis using split_at_first [of c s] by simp
qed

lemma consumeCallPrefix_resolution:
  "consumeCallPrefix (resolutionPrefix r @ s) = (Resolved r, s)"
  by (cases r) (simp_all add: consumeCallPrefix_def consume_front_def)

lemma consumeCallPrefix_static:
  "consumeCallPrefix (''Static Call to '' @ s) = (Static, s)"
  by (simp add: consumeCallPrefix_def consume_front_def)

lemma no_Load_resolution: "consume_front ''Load '' (resolutionPrefix r @ s) = None"
  by (cases r) (simp_all add: consume_front_def)

lemma no_Load_static: "consume_front ''Load '' (''Static Call to '' @ s) = None"
  by (simp add: consume_front_def)

lemma unprefixed_member:
  assumes "CHR ''.'' \<notin> set c" and "\<not> hasStubPrefix c"
  shows "consume_front ''Load '' (c @ CHR ''.'' # r) = None
         \<and> consumeCallPrefix (c @ CHR ''.'' # r) = (Unprefixed, c @ CHR ''.'' # r)"
proof -
  have n: "consume_front ''Load '' c = None" "consume_front ''Virtual Call to '' c = None"
    "consume_front ''Interface Call to '' c = None" "consume_front ''Special Call to '' c = None"
    "consume_front ''Static Call to '' c = None"
    using assms(2) by (simp_all add: hasStubPrefix_def)
  have "consume_front ''Load '' (c @ CHR ''.'' # r) = None"
    by (rule consume_front_before_dot [OF _ n(1)]) simp
  moreover have "consume_front ''Virtual Call to '' (c @ CHR ''.'' # r) = None"
    by (rule consume_front_before_dot [OF _ n(2)]) simp
  moreover have "consume_front ''Interface Call to '' (c @ CHR ''.'' # r) = None"
    by (rule consume_front_before_dot [OF _ n(3)]) simp
  moreover have "consume_front ''Special Call to '' (c @ CHR ''.'' # r) = None"
    by (rule consume_front_before_dot [OF _ n(4)]) simp
  moreover have "consume_front ''Static Call to '' (c @ CHR ''.'' # r) = None"
    by (rule consume_front_before_dot [OF _ n(5)]) simp
  ultimately show ?thesis by (simp add: consumeCallPrefix_def)
qed

lemma demangleMember_method:
  assumes "CHR ''.'' \<notin> set c" and "CHR '':'' \<notin> set m" and "parseMethodType (CHR ''('' # d) = pm"
  shows "demangleMember kind (c @ CHR ''.'' # m @ CHR '':'' # CHR ''('' # d) =
           (case pm of
              None \<Rightarrow> Monostate
            | Some mt \<Rightarrow>
                (case kind of
                   Unprefixed \<Rightarrow> Monostate
                 | Resolved r \<Rightarrow> MethodResolutionCall (DemangledMethodResolutionCall r c m mt)
                 | Static \<Rightarrow> StaticCall (DemangledStaticCall c m mt)))"
  using assms(3)
  by (simp add: demangleMember_def split_first_append [OF assms(1)]
      split_first_append [OF assms(2)])

lemma demangleMember_field:
  assumes "CHR ''.'' \<notin> set c" and "CHR '':'' \<notin> set f" and "wf_FieldType ft"
  shows "demangleMember Unprefixed (c @ CHR ''.'' # f @ CHR '':'' # fieldDescriptor ft) =
           FieldAccess (DemangledFieldAccess c f ft)"
proof -
  obtain x xs where d: "fieldDescriptor ft = x # xs" "x \<noteq> CHR ''(''"
    using fieldDescriptor_Cons [of ft] by blast
  have p: "parseFieldType (x # xs) = Some ft"
    using parseFieldType_fieldDescriptor [OF assms(3)] d(1) by simp
  show ?thesis
    using d(2) p
    by (simp add: demangleMember_def split_first_append [OF assms(1)]
        split_first_append [OF assms(2)] d(1))
qed

lemma demangle_field_access:
  assumes "CHR ''.'' \<notin> set c" and "\<not> hasStubPrefix c" and "CHR '':'' \<notin> set f"
    and "wf_FieldType ft"
  shows "demangleStubSymbolName (mangleFieldAccess c f ft)
           = FieldAccess (DemangledFieldAccess c f ft)"
  using unprefixed_member [OF assms(1,2), of "f @ CHR '':'' # fieldDescriptor ft"]
    demangleMember_field [OF assms(1,3,4)]
  by (simp add: demangleStubSymbolName_def mangleFieldAccess_def)

lemma demangle_resolution_call:
  assumes "CHR ''.'' \<notin> set c" and "CHR '':'' \<notin> set m" and "wf_MethodType mt"
  shows "demangleStubSymbolName (mangleMethodResolutionCall r c m mt)
           = MethodResolutionCall (DemangledMethodResolutionCall r c m mt)"
proof -
  obtain d where d: "methodDescriptor mt = CHR ''('' # d"
    using methodDescriptor_Cons [of mt] by blast
  have p: "parseMethodType (CHR ''('' # d) = Some mt"
    using parseMethodType_methodDescriptor [OF assms(3)] d by simp
  have "demangleMember (Resolved r) (c @ CHR ''.'' # m @ CHR '':'' # CHR ''('' # d)
          = MethodResolutionCall (DemangledMethodResolutionCall r c m mt)"
    using demangleMember_method [OF assms(1,2) p, of "Resolved r"] by simp
  then show ?thesis
    using no_Load_resolution [of r "c @ CHR ''.'' # m @ CHR '':'' # CHR ''('' # d"]
      consumeCallPrefix_resolution [of r "c @ CHR ''.'' # m @ CHR '':'' # CHR ''('' # d"]
    by (simp add: demangleStubSymbolName_def mangleMethodResolutionCall_def
        mangleDirectMethodCall_def d del: resolutionPrefix.simps)
qed

lemma demangle_static_call:
  assumes "CHR ''.'' \<notin> set c" and "CHR '':'' \<notin> set m" and "wf_MethodType mt"
  shows "demangleStubSymbolName (mangleStaticCall c m mt)
           = StaticCall (DemangledStaticCall c m mt)"
proof -
  obtain d where d: "methodDescriptor mt = CHR ''('' # d"
    using methodDescriptor_Cons [of mt] by blast
  have p: "parseMethodType (CHR ''('' # d) = Some mt"
    using parseMethodType_methodDescriptor [OF assms(3)] d by simp
  have "demangleMember Static (c @ CHR ''.'' # m @ CHR '':'' # CHR ''('' # d)
          = StaticCall (DemangledStaticCall c m mt)"
    using demangleMember_method [OF assms(1,2) p, of Static] by simp
  then show ?thesis
    using no_Load_static [of "c @ CHR ''.'' # m @ CHR '':'' # CHR ''('' # d"]
      consumeCallPrefix_static [of "c @ CHR ''.'' # m @ CHR '':'' # CHR ''('' # d"]
    by (simp add: demangleStubSymbolName_def mangleStaticCall_def
        mangleDirectMethodCall_def d)
qed

lemma demangle_class_object:
  assumes "wf_FieldType ft"
  shows "demangleStubSymbolName (mangleClassObjectAccess ft) = ClassObjectAccess ft"
  using parseFieldType_fieldDescriptor [OF assms] consume_front_append [of "''Load ''" "fieldDescriptor ft"]
  by (simp add: demangleStubSymbolName_def mangleClassObjectAccess_def)

text \<open>
  Direct calls whose names keep clear of the separators are not demangled. The
  condition is sufficient, not necessary.
\<close>

lemma demangle_direct_call:
  assumes "CHR ''.'' \<notin> set c" and "\<not> hasStubPrefix c" and "CHR '':'' \<notin> set m"
  shows "demangleStubSymbolName (mangleDirectMethodCall c m mt) = Monostate"
proof -
  obtain d where d: "methodDescriptor mt = CHR ''('' # d"
    using methodDescriptor_Cons [of mt] by blast
  have "demangleMember Unprefixed (c @ CHR ''.'' # m @ CHR '':'' # CHR ''('' # d) = Monostate"
    using demangleMember_method [OF assms(1,3) refl, of Unprefixed d]
    by (simp split: option.splits)
  then show ?thesis
    using unprefixed_member [OF assms(1,2), of "m @ CHR '':'' # CHR ''('' # d"]
    by (simp add: demangleStubSymbolName_def mangleDirectMethodCall_def d)
qed

lemma consumeCallPrefix_sound:
  "consumeCallPrefix s = (kind, rest) \<Longrightarrow>
     (case kind of
        Unprefixed \<Rightarrow> s = rest
      | Resolved r \<Rightarrow> s = resolutionPrefix r @ rest
      | Static \<Rightarrow> s = ''Static Call to '' @ rest)"
  unfolding consumeCallPrefix_def
  by (auto split: option.splits dest!: consume_front_sound)

lemma split_first_no_separator:
  "split_first c s = Some (a, b) \<Longrightarrow> c \<notin> set a"
  by (auto simp: split_first_def split: if_splits dest: set_takeWhileD)

lemma consume_front_extend:
  assumes "consume_front p c \<noteq> None"
  shows "consume_front p (c @ r) \<noteq> None"
proof -
  have t: "take (length p) c = p" using assms by (auto simp: consume_front_def split: if_splits)
  have "length (take (length p) c) = min (length c) (length p)" by simp
  then have "length p \<le> length c" unfolding t by simp
  then show ?thesis using t by (simp add: consume_front_def)
qed

lemma consumeCallPrefix_Unprefixed:
  "consumeCallPrefix s = (Unprefixed, rest) \<Longrightarrow>
     consume_front ''Virtual Call to '' s = None \<and> consume_front ''Interface Call to '' s = None
     \<and> consume_front ''Special Call to '' s = None \<and> consume_front ''Static Call to '' s = None"
  unfolding consumeCallPrefix_def by (auto split: option.splits)

lemma unprefixed_class:
  assumes "consume_front ''Load '' (c @ r) = None"
    and "consumeCallPrefix (c @ r) = (Unprefixed, rest)"
  shows "\<not> hasStubPrefix c"
  using assms(1) consumeCallPrefix_Unprefixed [OF assms(2)]
    consume_front_extend [of "''Load ''" c r]
    consume_front_extend [of "''Virtual Call to ''" c r]
    consume_front_extend [of "''Interface Call to ''" c r]
    consume_front_extend [of "''Special Call to ''" c r]
    consume_front_extend [of "''Static Call to ''" c r]
  unfolding hasStubPrefix_def by blast

lemma demangleMember_cases:
  assumes "demangleMember kind s \<noteq> Monostate"
  shows "(\<exists>c f ft. kind = Unprefixed \<and> CHR ''.'' \<notin> set c \<and> CHR '':'' \<notin> set f
            \<and> wf_FieldType ft \<and> s = mangleFieldAccess c f ft)
         \<or> (\<exists>c m mt. kind \<noteq> Unprefixed \<and> CHR ''.'' \<notin> set c \<and> CHR '':'' \<notin> set m
            \<and> wf_MethodType mt \<and> s = mangleDirectMethodCall c m mt)"
proof -
  obtain c afterDot where s1: "split_first CHR ''.'' s = Some (c, afterDot)"
    using assms by (auto simp: demangleMember_def split: option.splits)
  obtain m d where s2: "split_first CHR '':'' afterDot = Some (m, d)"
    using assms s1 by (auto simp: demangleMember_def split: option.splits)
  have s: "s = c @ ''.'' @ m @ '':'' @ d"
    using split_first_sound [OF s1] split_first_sound [OF s2] by simp
  have nc: "CHR ''.'' \<notin> set c" using s1 by (rule split_first_no_separator)
  have nm: "CHR '':'' \<notin> set m" using s2 by (rule split_first_no_separator)
  show ?thesis
  proof (cases "take 1 d = ''(''")
    case True
    then obtain mt where p: "parseMethodType d = Some mt"
      using assms s1 s2 by (auto simp: demangleMember_def split: option.splits)
    have k: "kind \<noteq> Unprefixed"
      using assms s1 s2 True p by (auto simp: demangleMember_def)
    have "s = mangleDirectMethodCall c m mt \<and> wf_MethodType mt"
      using parseMethodType_sound [OF p] s by (simp add: mangleDirectMethodCall_def)
    then show ?thesis using k nc nm by blast
  next
    case False
    then have k: "kind = Unprefixed"
      using assms s1 s2 by (cases kind) (auto simp: demangleMember_def)
    then obtain ft where p: "parseFieldType d = Some ft"
      using assms s1 s2 False by (auto simp: demangleMember_def split: option.splits)
    have "s = mangleFieldAccess c f ft \<and> wf_FieldType ft" if "f = m" for f
      using parseFieldType_sound [OF p] s that by (simp add: mangleFieldAccess_def)
    then show ?thesis using k nc nm by blast
  qed
qed

lemma demangle_answers_stub_symbol:
  assumes "demangleStubSymbolName s \<noteq> Monostate"
  shows "isStubSymbol s"
proof (cases "consume_front ''Load '' s")
  case (Some d)
  then obtain ft where p: "parseFieldType d = Some ft"
    using assms by (auto simp: demangleStubSymbolName_def split: option.splits)
  have "s = mangleClassObjectAccess ft \<and> wf_FieldType ft"
    using consume_front_sound [OF Some] parseFieldType_sound [OF p]
    by (simp add: mangleClassObjectAccess_def)
  then show ?thesis unfolding isStubSymbol_def by blast
next
  case None
  obtain kind rest where k: "consumeCallPrefix s = (kind, rest)"
    by (cases "consumeCallPrefix s")
  have "demangleMember kind rest \<noteq> Monostate"
    using assms None k by (simp add: demangleStubSymbolName_def)
  note ms = demangleMember_cases [OF this]
  note cs = consumeCallPrefix_sound [OF k]
  from ms show ?thesis
  proof (elim disjE exE conjE)
    fix c f ft
    assume u: "kind = Unprefixed" and w: "CHR ''.'' \<notin> set c" "CHR '':'' \<notin> set f"
      "wf_FieldType ft" and r: "rest = mangleFieldAccess c f ft"
    have s: "s = mangleFieldAccess c f ft" using cs u r by simp
    then have s': "s = c @ (''.'' @ f @ '':'' @ fieldDescriptor ft)"
      by (simp add: mangleFieldAccess_def)
    have "\<not> hasStubPrefix c"
      using unprefixed_class [of c "''.'' @ f @ '':'' @ fieldDescriptor ft" rest] None k u
      unfolding s' by simp
    then show ?thesis unfolding isStubSymbol_def using w s by blast
  next
    fix c m mt
    assume u: "kind \<noteq> Unprefixed" and w: "CHR ''.'' \<notin> set c" "CHR '':'' \<notin> set m"
      "wf_MethodType mt" and r: "rest = mangleDirectMethodCall c m mt"
    show ?thesis
    proof (cases kind)
      case Unprefixed
      then show ?thesis using u by simp
    next
      case (Resolved res)
      then have "s = mangleMethodResolutionCall res c m mt"
        using cs r by (simp add: mangleMethodResolutionCall_def)
      then show ?thesis unfolding isStubSymbol_def using w by blast
    next
      case Static
      then have "s = mangleStaticCall c m mt"
        using cs r by (simp add: mangleStaticCall_def)
      then show ?thesis unfolding isStubSymbol_def using w by blast
    qed
  qed
qed

lemma stub_symbol_demangled:
  assumes "isStubSymbol s"
  shows "demangleStubSymbolName s \<noteq> Monostate"
  using assms unfolding isStubSymbol_def
  by (auto simp: demangle_field_access demangle_resolution_call demangle_static_call
      demangle_class_object)


text \<open>
  The model on the specification's own examples: the method descriptor
  \<^verbatim>\<open>([ILjava/lang/String;)V\<close>, the virtual call of \<^verbatim>\<open>toString\<close>, the field access
  to \<^verbatim>\<open>System.out\<close> and the class-object load of \<^verbatim>\<open>[I\<close>.
\<close>

lemma specification_examples:
  "parseMethodType ''([ILjava/lang/String;)V''
     = Some (MethodType [Array (Base (BaseType Int')), Object (ObjectType ''java/lang/String'')]
         (Base (BaseType Void)))"
  "mangleMethodResolutionCall Virtual ''java/lang/Object'' ''toString''
       (MethodType [] (Object (ObjectType ''java/lang/String'')))
     = ''Virtual Call to java/lang/Object.toString:()Ljava/lang/String;''"
  "demangleStubSymbolName ''Virtual Call to java/lang/Object.toString:()Ljava/lang/String;''
     = MethodResolutionCall (DemangledMethodResolutionCall Virtual ''java/lang/Object''
         ''toString'' (MethodType [] (Object (ObjectType ''java/lang/String''))))"
  "mangleFieldAccess ''java/lang/System'' ''out'' (Object (ObjectType ''java/io/PrintStream''))
     = ''java/lang/System.out:Ljava/io/PrintStream;''"
  "mangleClassObjectAccess (Array (Base (BaseType Int'))) = ''Load [I''"
  "demangleStubSymbolName ''Load [I'' = ClassObjectAccess (Array (Base (BaseType Int')))"
  by (simp_all add: demangleStubSymbolName_def demangleMember_def consumeCallPrefix_def
      consume_front_def split_first_def parseFieldType_def parseMethodType_def
      parseReturnType_def parseParameters.simps charBaseType_def mangleFieldAccess_def
      mangleDirectMethodCall_def mangleMethodResolutionCall_def mangleClassObjectAccess_def
      methodDescriptor_def)

text \<open>
  Claim C1, as the model has it. Demangling the mangled form of a request gives the
  request back when the names keep clear of the separators and the descriptor is one
  the grammar can express: the class name contains no \<open>.\<close>, the member name no \<open>:\<close>,
  the class name of a field access does not start with one of the five prefixes, and
  the descriptor is well formed. This covers field accesses, the three kinds of
  method-resolution call, static calls and class-object loads.
\<close>

theorem mangle_demangle_roundtrip:
  "(CHR ''.'' \<notin> set c \<and> \<not> hasStubPrefix c \<and> CHR '':'' \<notin> set f \<and> wf_FieldType ft \<longrightarrow>
      demangleStubSymbolName (mangleFieldAccess c f ft)
        = FieldAccess (DemangledFieldAccess c f ft))
   \<and> (CHR ''.'' \<notin> set c \<and> CHR '':'' \<notin> set m \<and> wf_MethodType mt \<longrightarrow>
      demangleStubSymbolName (mangleMethodResolutionCall r c m mt)
        = MethodResolutionCall (DemangledMethodResolutionCall r c m mt))
   \<and> (CHR ''.'' \<notin> set c \<and> CHR '':'' \<notin> set m \<and> wf_MethodType mt \<longrightarrow>
      demangleStubSymbolName (mangleStaticCall c m mt)
        = StaticCall (DemangledStaticCall c m mt))
   \<and> (wf_FieldType ft \<longrightarrow>
      demangleStubSymbolName (mangleClassObjectAccess ft) = ClassObjectAccess ft)"
  using demangle_field_access demangle_resolution_call demangle_static_call
    demangle_class_object
  by blast

theorem mangle_demangle_roundtrip_witness:
  "CHR ''.'' \<notin> set ''java/lang/System'' \<and> \<not> hasStubPrefix ''java/lang/System''
   \<and> CHR '':'' \<notin> set ''out'' \<and> wf_FieldType (Object (ObjectType ''java/io/PrintStream''))
   \<and> demangleStubSymbolName ''java/lang/System.out:Ljava/io/PrintStream;''
        = FieldAccess (DemangledFieldAccess ''java/lang/System'' ''out''
            (Object (ObjectType ''java/io/PrintStream'')))
   \<and> CHR '':'' \<notin> set ''toString''
   \<and> wf_MethodType (MethodType [] (Object (ObjectType ''java/lang/String'')))
   \<and> demangleStubSymbolName ''Virtual Call to java/lang/System.toString:()Ljava/lang/String;''
        = MethodResolutionCall (DemangledMethodResolutionCall Virtual ''java/lang/System''
            ''toString'' (MethodType [] (Object (ObjectType ''java/lang/String''))))
   \<and> demangleStubSymbolName ''Static Call to java/lang/System.toString:()Ljava/lang/String;''
        = StaticCall (DemangledStaticCall ''java/lang/System''
            ''toString'' (MethodType [] (Object (ObjectType ''java/lang/String''))))
   \<and> demangleStubSymbolName ''Load Ljava/io/PrintStream;''
        = ClassObjectAccess (Object (ObjectType ''java/io/PrintStream''))"
proof -
  have h1: "CHR ''.'' \<notin> set ''java/lang/System''" by simp
  have h2: "\<not> hasStubPrefix ''java/lang/System''"
    by (simp add: hasStubPrefix_def consume_front_def)
  have h3: "CHR '':'' \<notin> set ''out''" by simp
  have h4: "wf_FieldType (Object (ObjectType ''java/io/PrintStream''))" by simp
  have h5: "CHR '':'' \<notin> set ''toString''" by simp
  have h6: "wf_MethodType (MethodType [] (Object (ObjectType ''java/lang/String'')))"
    by (simp add: wf_MethodType_def)
  have m1: "mangleFieldAccess ''java/lang/System'' ''out'' (Object (ObjectType ''java/io/PrintStream''))
      = ''java/lang/System.out:Ljava/io/PrintStream;''"
    by (simp add: mangleFieldAccess_def)
  have m2: "mangleMethodResolutionCall Virtual ''java/lang/System'' ''toString''
        (MethodType [] (Object (ObjectType ''java/lang/String'')))
      = ''Virtual Call to java/lang/System.toString:()Ljava/lang/String;''"
    by (simp add: mangleMethodResolutionCall_def mangleDirectMethodCall_def methodDescriptor_def)
  have m3: "mangleStaticCall ''java/lang/System'' ''toString''
        (MethodType [] (Object (ObjectType ''java/lang/String'')))
      = ''Static Call to java/lang/System.toString:()Ljava/lang/String;''"
    by (simp add: mangleStaticCall_def mangleDirectMethodCall_def methodDescriptor_def)
  have m4: "mangleClassObjectAccess (Object (ObjectType ''java/io/PrintStream''))
      = ''Load Ljava/io/PrintStream;''"
    by (simp add: mangleClassObjectAccess_def)
  show ?thesis
    using h1 h2 h3 h4 h5 h6
      mangle_demangle_roundtrip [of "''java/lang/System''" "''out''"
        "Object (ObjectType ''java/io/PrintStream'')" "''toString''"
        "MethodType [] (Object (ObjectType ''java/lang/String''))" Virtual]
    unfolding m1 m2 m3 m4 by blast
qed

text \<open>
  Claim C1 as stated, for every request, fails. Mangling is a concatenation, so the
  field accesses (\<open>a.b\<close>, \<open>c\<close>) and (\<open>a\<close>, \<open>b.c\<close>) have one symbol, \<open>a.b.c:I\<close>, and
  the demangler returns the second for both. The field \<open>f:Lx\<close> of type \<open>Ly;\<close> in class
  \<open>A\<close> has the symbol \<open>A.f:Lx:Ly;\<close>, which is demangled as the field \<open>f\<close> of type
  \<open>Lx:Ly;\<close>. A field access whose descriptor is Void, or whose class name starts with
  \<open>Load \<close>, is demangled to \<open>Monostate\<close>.
\<close>

theorem mangle_demangle_counterexample:
  "mangleFieldAccess ''a.b'' ''c'' (Base (BaseType Int'))
     = mangleFieldAccess ''a'' ''b.c'' (Base (BaseType Int'))
   \<and> demangleStubSymbolName (mangleFieldAccess ''a.b'' ''c'' (Base (BaseType Int')))
     \<noteq> FieldAccess (DemangledFieldAccess ''a.b'' ''c'' (Base (BaseType Int')))
   \<and> demangleStubSymbolName (mangleFieldAccess ''A'' ''f:Lx'' (Object (ObjectType ''y'')))
     \<noteq> FieldAccess (DemangledFieldAccess ''A'' ''f:Lx'' (Object (ObjectType ''y'')))
   \<and> demangleStubSymbolName (mangleFieldAccess ''A'' ''f'' (Base (BaseType Void)))
     \<noteq> FieldAccess (DemangledFieldAccess ''A'' ''f'' (Base (BaseType Void)))
   \<and> demangleStubSymbolName (mangleFieldAccess ''Load x'' ''f'' (Base (BaseType Int')))
     \<noteq> FieldAccess (DemangledFieldAccess ''Load x'' ''f'' (Base (BaseType Int')))"
proof -
  have e: "mangleFieldAccess ''a.b'' ''c'' (Base (BaseType Int'))
     = mangleFieldAccess ''a'' ''b.c'' (Base (BaseType Int'))"
    by (simp add: mangleFieldAccess_def)
  have r1: "demangleStubSymbolName (mangleFieldAccess ''a.b'' ''c'' (Base (BaseType Int')))
     = FieldAccess (DemangledFieldAccess ''a'' ''b.c'' (Base (BaseType Int')))"
    by (simp add: demangleStubSymbolName_def demangleMember_def consumeCallPrefix_def
        consume_front_def split_first_def parseFieldType_def charBaseType_def
        mangleFieldAccess_def)
  have r2: "demangleStubSymbolName (mangleFieldAccess ''A'' ''f:Lx'' (Object (ObjectType ''y'')))
     = FieldAccess (DemangledFieldAccess ''A'' ''f'' (Object (ObjectType ''x:Ly'')))"
    by (simp add: demangleStubSymbolName_def demangleMember_def consumeCallPrefix_def
        consume_front_def split_first_def parseFieldType_def charBaseType_def
        mangleFieldAccess_def)
  have r3: "demangleStubSymbolName (mangleFieldAccess ''A'' ''f'' (Base (BaseType Void)))
     = Monostate"
    by (simp add: demangleStubSymbolName_def demangleMember_def consumeCallPrefix_def
        consume_front_def split_first_def parseFieldType_def charBaseType_def
        mangleFieldAccess_def)
  have r4: "demangleStubSymbolName (mangleFieldAccess ''Load x'' ''f'' (Base (BaseType Int')))
     = Monostate"
    by (simp add: demangleStubSymbolName_def consume_front_def parseFieldType_def
        charBaseType_def mangleFieldAccess_def)
  show ?thesis unfolding r1 r2 r3 r4 using e by simp
qed

text \<open>
  What tells a symbol from the others: the first character of a prefixed symbol, and
  the opening parenthesis of a method descriptor.
\<close>

lemma dot_in_mangled:
  "CHR ''.'' \<in> set (mangleFieldAccess c f ft)"
  "CHR ''.'' \<in> set (mangleMethodResolutionCall r c m mt)"
  "CHR ''.'' \<in> set (mangleStaticCall c m mt)"
  by (simp_all add: mangleFieldAccess_def mangleMethodResolutionCall_def mangleStaticCall_def
      mangleDirectMethodCall_def)

lemma resolution_call_head:
  "hd (mangleMethodResolutionCall r c m mt) \<in> {CHR ''V'', CHR ''I'', CHR ''S''}"
  by (cases r) (simp_all add: mangleMethodResolutionCall_def)

lemma static_call_head: "hd (mangleStaticCall c m mt) = CHR ''S''"
  by (simp add: mangleStaticCall_def)

lemma class_object_head: "hd (mangleClassObjectAccess ft) = CHR ''L''"
  by (simp add: mangleClassObjectAccess_def)

lemma field_access_not_method:
  assumes "CHR ''.'' \<notin> set c" and "CHR '':'' \<notin> set f"
    and "CHR ''.'' \<notin> set c'" and "CHR '':'' \<notin> set m"
  shows "mangleDirectMethodCall c' m mt \<noteq> mangleFieldAccess c f ft"
proof
  assume e: "mangleDirectMethodCall c' m mt = mangleFieldAccess c f ft"
  have A: "split_first CHR ''.'' (mangleDirectMethodCall c' m mt)
          = Some (c', m @ CHR '':'' # methodDescriptor mt)"
    by (simp add: mangleDirectMethodCall_def split_first_append [OF assms(3)])
  have B: "split_first CHR ''.'' (mangleFieldAccess c f ft)
          = Some (c, f @ CHR '':'' # fieldDescriptor ft)"
    by (simp add: mangleFieldAccess_def split_first_append [OF assms(1)])
  have r: "m @ CHR '':'' # methodDescriptor mt = f @ CHR '':'' # fieldDescriptor ft"
    using A B e by (metis option.inject prod.inject)
  have C: "split_first CHR '':'' (m @ CHR '':'' # methodDescriptor mt)
      = Some (m, methodDescriptor mt)"
    by (rule split_first_append [OF assms(4)])
  have D: "split_first CHR '':'' (f @ CHR '':'' # fieldDescriptor ft)
      = Some (f, fieldDescriptor ft)"
    by (rule split_first_append [OF assms(2)])
  have q: "methodDescriptor mt = fieldDescriptor ft"
    using C D r by (metis option.inject prod.inject)
  obtain cs where md: "methodDescriptor mt = CHR ''('' # cs"
    using methodDescriptor_Cons [of mt] by blast
  obtain x xs where fd: "fieldDescriptor ft = x # xs" and x: "x \<noteq> CHR ''(''"
    using fieldDescriptor_Cons [of ft] by blast
  show False using q md fd x by (metis list.inject)
qed

text \<open>
  Claim C2, as the model has it. The demangler returns \<open>Monostate\<close> on exactly the
  strings that are not stub symbols: a string that matches none of the four demangled
  grammars is rejected, and a stub symbol is not. For a direct-call symbol this says
  that it is demangled to \<open>Monostate\<close> exactly when it is not at the same time a stub
  symbol. The mangling functions are total functions into strings: their result has no
  failure value.
\<close>

theorem demangle_rejects_unrecognized:
  "(demangleStubSymbolName s = Monostate \<longleftrightarrow> \<not> isStubSymbol s)
   \<and> (demangleStubSymbolName (mangleDirectMethodCall c m mt) = Monostate
        \<longleftrightarrow> \<not> isStubSymbol (mangleDirectMethodCall c m mt))"
  using demangle_answers_stub_symbol stub_symbol_demangled by blast

theorem demangle_rejects_unrecognized_witness:
  "\<not> isStubSymbol ''hello'' \<and> demangleStubSymbolName ''hello'' = Monostate
   \<and> \<not> isStubSymbol (mangleDirectMethodCall ''java/lang/Object'' ''toString''
        (MethodType [] (Object (ObjectType ''java/lang/String''))))
   \<and> demangleStubSymbolName (mangleDirectMethodCall ''java/lang/Object'' ''toString''
        (MethodType [] (Object (ObjectType ''java/lang/String'')))) = Monostate"
proof -
  let ?mt = "MethodType [] (Object (ObjectType ''java/lang/String''))"
  let ?d = "mangleDirectMethodCall ''java/lang/Object'' ''toString'' ?mt"
  have hd_d: "hd ?d = CHR ''j''" by (simp add: mangleDirectMethodCall_def)
  have h: "\<not> isStubSymbol ''hello''"
  proof
    assume "isStubSymbol ''hello''"
    then consider c f ft where "''hello'' = mangleFieldAccess c f ft"
      | r c m mt where "''hello'' = mangleMethodResolutionCall r c m mt"
      | c m mt where "''hello'' = mangleStaticCall c m mt"
      | ft where "''hello'' = mangleClassObjectAccess ft"
      unfolding isStubSymbol_def by blast
    then show False
    proof cases
      case 1
      have "CHR ''.'' \<in> set (mangleFieldAccess c f ft)" by (rule dot_in_mangled(1))
      then have "CHR ''.'' \<in> set ''hello''" unfolding 1 [symmetric] .
      then show False by simp
    next
      case 2
      have "hd (mangleMethodResolutionCall r c m mt) \<in> {CHR ''V'', CHR ''I'', CHR ''S''}"
        by (rule resolution_call_head)
      then have "hd ''hello'' \<in> {CHR ''V'', CHR ''I'', CHR ''S''}" unfolding 2 [symmetric] .
      then show False by simp
    next
      case 3
      have "hd (mangleStaticCall c m mt) = CHR ''S''" by (rule static_call_head)
      then have "hd ''hello'' = CHR ''S''" unfolding 3 [symmetric] .
      then show False by simp
    next
      case 4
      have "hd (mangleClassObjectAccess ft) = CHR ''L''" by (rule class_object_head)
      then have "hd ''hello'' = CHR ''L''" unfolding 4 [symmetric] .
      then show False by simp
    qed
  qed
  have d: "\<not> isStubSymbol ?d"
  proof
    assume "isStubSymbol ?d"
    then consider c f ft where "CHR ''.'' \<notin> set c" "CHR '':'' \<notin> set f"
        "?d = mangleFieldAccess c f ft"
      | r c m mt where "?d = mangleMethodResolutionCall r c m mt"
      | c m mt where "?d = mangleStaticCall c m mt"
      | ft where "?d = mangleClassObjectAccess ft"
      unfolding isStubSymbol_def by blast
    then show False
    proof cases
      case 1
      have "?d \<noteq> mangleFieldAccess c f ft"
        by (rule field_access_not_method [OF 1(1,2)]) simp_all
      then show False using 1(3) by blast
    next
      case 2
      have "hd (mangleMethodResolutionCall r c m mt) \<in> {CHR ''V'', CHR ''I'', CHR ''S''}"
        by (rule resolution_call_head)
      then have "hd ?d \<in> {CHR ''V'', CHR ''I'', CHR ''S''}" unfolding 2 [symmetric] .
      then show False unfolding hd_d by simp
    next
      case 3
      have "hd (mangleStaticCall c m mt) = CHR ''S''" by (rule static_call_head)
      then have "hd ?d = CHR ''S''" unfolding 3 [symmetric] .
      then show False unfolding hd_d by simp
    next
      case 4
      have "hd (mangleClassObjectAccess ft) = CHR ''L''" by (rule class_object_head)
      then have "hd ?d = CHR ''L''" unfolding 4 [symmetric] .
      then show False unfolding hd_d by simp
    qed
  qed
  show ?thesis
    using h d
      demangle_rejects_unrecognized [of "''hello''" "''java/lang/Object''" "''toString''" ?mt]
    by blast
qed

text \<open>
  Claim C2 as stated, for every direct-call symbol, fails. Direct calls carry no
  prefix: the direct call of \<open>m\<close> in a class named \<open>Static Call to A\<close> has the symbol
  of the static call of \<open>m\<close> in \<open>A\<close> and is demangled as that static call. The direct
  call of a method named \<open>b:Lx\<close>, and the one in a class named \<open>a.b:Lc\<close>, both
  returning \<open>Ly;\<close>, are demangled as accesses to the field \<open>b\<close> of class \<open>a\<close>.
\<close>

theorem demangle_direct_call_counterexample:
  "mangleDirectMethodCall ''Static Call to A'' ''m'' (MethodType [] (Base (BaseType Void)))
     = mangleStaticCall ''A'' ''m'' (MethodType [] (Base (BaseType Void)))
   \<and> demangleStubSymbolName
        (mangleDirectMethodCall ''Static Call to A'' ''m'' (MethodType [] (Base (BaseType Void))))
     \<noteq> Monostate
   \<and> demangleStubSymbolName
        (mangleDirectMethodCall ''a'' ''b:Lx'' (MethodType [] (Object (ObjectType ''y''))))
     \<noteq> Monostate
   \<and> demangleStubSymbolName
        (mangleDirectMethodCall ''a.b:Lc'' ''m'' (MethodType [] (Object (ObjectType ''y''))))
     \<noteq> Monostate"
proof -
  have e: "mangleDirectMethodCall ''Static Call to A'' ''m'' (MethodType [] (Base (BaseType Void)))
     = mangleStaticCall ''A'' ''m'' (MethodType [] (Base (BaseType Void)))"
    by (simp add: mangleStaticCall_def mangleDirectMethodCall_def)
  have r1: "demangleStubSymbolName
        (mangleDirectMethodCall ''Static Call to A'' ''m'' (MethodType [] (Base (BaseType Void))))
     = StaticCall (DemangledStaticCall ''A'' ''m'' (MethodType [] (Base (BaseType Void))))"
    by (simp add: demangleStubSymbolName_def demangleMember_def consumeCallPrefix_def
        consume_front_def split_first_def parseMethodType_def parseReturnType_def
        parseParameters.simps mangleDirectMethodCall_def methodDescriptor_def)
  have r2: "demangleStubSymbolName
        (mangleDirectMethodCall ''a'' ''b:Lx'' (MethodType [] (Object (ObjectType ''y''))))
     = FieldAccess (DemangledFieldAccess ''a'' ''b'' (Object (ObjectType ''x:()Ly'')))"
    by (simp add: demangleStubSymbolName_def demangleMember_def consumeCallPrefix_def
        consume_front_def split_first_def parseFieldType_def charBaseType_def
        mangleDirectMethodCall_def methodDescriptor_def)
  have r3: "demangleStubSymbolName
        (mangleDirectMethodCall ''a.b:Lc'' ''m'' (MethodType [] (Object (ObjectType ''y''))))
     = FieldAccess (DemangledFieldAccess ''a'' ''b'' (Object (ObjectType ''c.m:()Ly'')))"
    by (simp add: demangleStubSymbolName_def demangleMember_def consumeCallPrefix_def
        consume_front_def split_first_def parseFieldType_def charBaseType_def
        mangleDirectMethodCall_def methodDescriptor_def)
  show ?thesis unfolding r1 r2 r3 using e by simp
qed

end
